theory Spec2Isabelle
  imports Main "HOL-Library.Word"
begin

section \<open>Strings and case folding\<close>

text \<open>
  Go strings are modelled as \<^typ>\<open>string\<close>, one \<^typ>\<open>char\<close> per byte.
  \<open>strings.EqualFold\<close> is embedded on its ASCII path: two bytes are equal under
  folding when they are the same byte, or when the smaller one is an upper-case letter
  \<open>A..Z\<close> and the larger one is that letter plus \<open>'a' - 'A'\<close>. For runes outside
  ASCII the Go library goes on with Unicode simple folding, which is not part of this
  development: bytes at or above 0x80 are compared for identity.
\<close>

definition foldEqByte :: "char \<Rightarrow> char \<Rightarrow> bool" where
  "foldEqByte sr tr =
     (if tr = sr then True
      else (let lo = min (of_char sr :: nat) (of_char tr);
                hi = max (of_char sr :: nat) (of_char tr)
            in 65 \<le> lo \<and> lo \<le> 90 \<and> hi = lo + 32))"

fun EqualFold :: "string \<Rightarrow> string \<Rightarrow> bool" where
  "EqualFold [] [] = True"
| "EqualFold (sr # s) (tr # t) = (if foldEqByte sr tr then EqualFold s t else False)"
| "EqualFold [] (tr # t) = False"
| "EqualFold (sr # s) [] = False"

section \<open>Profiling tasks and method matching\<close>

text \<open>
  \<open>ProfilingTask\<close> of \<open>pkg/core/types.go\<close>. \<open>ExpiresAt\<close> is an instant, kept as
  the number of nanoseconds on the wall clock; \<open>Duration\<close> and \<open>SampleRate\<close> are Go
  \<open>int\<close>s.
\<close>

record ProfilingTask =
  Path :: string
  Methods :: "string list"
  ExpiresAt :: int
  Duration :: int
  SampleRate :: int
  ProfileType :: string

definition CommonMethods :: "string list" where
  "CommonMethods = [''GET'', ''POST'', ''PUT'', ''DELETE'']"

fun contains :: "string list \<Rightarrow> string \<Rightarrow> bool" where
  "contains [] item = False"
| "contains (s # items) item = (if EqualFold s item then True else contains items item)"

definition ShouldMatchMethod :: "ProfilingTask \<Rightarrow> string \<Rightarrow> bool" where
  "ShouldMatchMethod task requestMethod =
     (if length (Methods task) = 0 then requestMethod = ''GET''
      else if contains (Methods task) ''*'' then contains CommonMethods requestMethod
      else contains (Methods task) requestMethod)"

section \<open>Machine integers\<close>

text \<open>
  Counters are \<open>int64\<close>. They are kept as mathematical integers and the wrap-around
  of \<open>++\<close> and \<open>--\<close> is written out. Go's \<open>%\<close> truncates towards zero: the
  remainder has the sign of the dividend.
\<close>

definition wrap64 :: "int \<Rightarrow> int" where
  "wrap64 x = (x + 2 ^ 63) mod 2 ^ 64 - 2 ^ 63"

definition goRem :: "int \<Rightarrow> int \<Rightarrow> int" where
  "goRem a b = sgn a * (\<bar>a\<bar> mod \<bar>b\<bar>)"

section \<open>The manager\<close>

record ProfilingStats =
  TotalRequests :: int
  ProfiledCount :: int
  FailedCount :: int
  ActiveProfiles :: int
  LastUpdate :: int

text \<open>
  The fields of \<open>Options\<close> that the manager's operations read. \<open>MaxConcurrent\<close>
  is the capacity of the \<open>limiter\<close> channel, \<open>make(chan struct{}, opts.MaxConcurrent)\<close>,
  which exists for a non-negative capacity only.
\<close>

record Options =
  MaxConcurrent :: nat
  Enabled :: bool

text \<open>The three registered profilers, and \<open>[]byte\<close>.\<close>

datatype profiler = CPUProfiler | HeapProfiler | GoroutineProfiler

type_synonym bytes = "8 word list"

text \<open>
  \<open>Manager\<close> of \<open>pkg/core/manager.go\<close>. \<open>limiter\<close> is the number of tokens held
  in the buffered channel; \<open>requestCount\<close> is a Go map, where a missing key reads as
  zero; \<open>saved\<close> records the calls \<open>storage.Save(ctx, filename, data)\<close> in the
  order they were made. Logging has no effect on the state and is left out.
\<close>

record Manager =
  tasks :: "string \<rightharpoonup> ProfilingTask"
  stats :: ProfilingStats
  options :: Options
  limiter :: nat
  requestCount :: "string \<rightharpoonup> int"
  profilers :: "string \<rightharpoonup> profiler"
  saved :: "(string \<times> bytes) list"

definition readCount :: "(string \<rightharpoonup> int) \<Rightarrow> string \<Rightarrow> int" where
  "readCount rc path = (case rc path of None \<Rightarrow> 0 | Some c \<Rightarrow> c)"

subsection \<open>ShouldProfile\<close>

text \<open>
  \<open>for _, task := range m.tasks\<close> visits the entries of a Go map in an order the
  language leaves open; \<open>order\<close> is the order in which the keys are visited in one
  call. The path matcher is the interface value \<open>m.pathMatcher\<close>.
\<close>

fun findTask :: "(string \<Rightarrow> string \<Rightarrow> bool) \<Rightarrow> (string \<rightharpoonup> ProfilingTask) \<Rightarrow> string list
    \<Rightarrow> string \<Rightarrow> string \<Rightarrow> ProfilingTask option" where
  "findTask pathMatch tbl [] path method = None"
| "findTask pathMatch tbl (k # ks) path method =
     (case tbl k of
        None \<Rightarrow> findTask pathMatch tbl ks path method
      | Some task \<Rightarrow>
          if pathMatch (Path task) path \<and> ShouldMatchMethod task method then Some task
          else findTask pathMatch tbl ks path method)"

text \<open>
  Every \<open>return\<close> of \<open>ShouldProfile\<close> is one constructor; Go's result
  \<open>(task, true)\<close> is \<open>Admitted task\<close> and every other one is
  \<open>(ProfilingTask{}, false)\<close>.
\<close>

datatype verdict =
    Disabled
  | NoMatch
  | Expired ProfilingTask
  | SampledOut ProfilingTask
  | NoPermit ProfilingTask
  | Admitted ProfilingTask

fun admit :: "verdict \<Rightarrow> bool" where
  "admit (Admitted task) = True"
| "admit v = False"

text \<open>
  The \<open>select\<close> at the end of \<open>ShouldProfile\<close>: a send on the limiter goes
  through when the channel has room, and the \<open>default\<close> branch counts a failure
  otherwise. \<open>time.Now().After(t)\<close> is \<open>now > t\<close>.
\<close>

definition acquire :: "ProfilingTask \<Rightarrow> Manager \<Rightarrow> verdict \<times> Manager" where
  "acquire matchedTask m =
     (if limiter m < MaxConcurrent (options m)
      then (Admitted matchedTask, m\<lparr>limiter := limiter m + 1\<rparr>)
      else (NoPermit matchedTask,
            m\<lparr>stats := (stats m)\<lparr>FailedCount := wrap64 (FailedCount (stats m) + 1)\<rparr>\<rparr>))"

definition ShouldProfile :: "(string \<Rightarrow> string \<Rightarrow> bool) \<Rightarrow> string list \<Rightarrow> int \<Rightarrow> Manager
    \<Rightarrow> string \<Rightarrow> string \<Rightarrow> verdict \<times> Manager" where
  "ShouldProfile pathMatch order now m path method =
     (if \<not> Enabled (options m) then (Disabled, m)
      else
        (case findTask pathMatch (tasks m) order path method of
           None \<Rightarrow> (NoMatch, m)
         | Some matchedTask \<Rightarrow>
             if now > ExpiresAt matchedTask then (Expired matchedTask, m)
             else if SampleRate matchedTask > 1 then
               (let count = wrap64 (readCount (requestCount m) (Path matchedTask) + 1);
                    m' = m\<lparr>requestCount := (requestCount m)(Path matchedTask \<mapsto> count)\<rparr>
                in if goRem count (SampleRate matchedTask) \<noteq> 0 then (SampledOut matchedTask, m')
                   else acquire matchedTask m')
             else acquire matchedTask m))"

subsection \<open>updateTasks and releaseLimiter\<close>

text \<open>
  \<open>updateTasks\<close> fills a fresh map in the order of the list, so a later task with the
  same path overwrites an earlier one; then it walks over \<open>m.requestCount\<close> and
  deletes every key that the new map does not have. \<open>now\<close> is the reading of
  \<open>time.Now()\<close>.
\<close>

fun buildTaskMap :: "ProfilingTask list \<Rightarrow> (string \<rightharpoonup> ProfilingTask) \<Rightarrow> (string \<rightharpoonup> ProfilingTask)" where
  "buildTaskMap [] taskMap = taskMap"
| "buildTaskMap (task # newTasks) taskMap = buildTaskMap newTasks (taskMap(Path task \<mapsto> task))"

definition pruneCounts :: "(string \<rightharpoonup> ProfilingTask) \<Rightarrow> (string \<rightharpoonup> int) \<Rightarrow> (string \<rightharpoonup> int)" where
  "pruneCounts taskMap rc = (\<lambda>path. case taskMap path of None \<Rightarrow> None | Some task \<Rightarrow> rc path)"

definition updateTasks :: "int \<Rightarrow> ProfilingTask list \<Rightarrow> Manager \<Rightarrow> Manager" where
  "updateTasks now newTasks m =
     (let taskMap = buildTaskMap newTasks Map.empty
      in m\<lparr>tasks := taskMap,
           stats := (stats m)\<lparr>LastUpdate := now\<rparr>,
           requestCount := pruneCounts taskMap (requestCount m)\<rparr>)"

text \<open>A receive with a \<open>default\<close> branch: it takes a token if one is there.\<close>

definition releaseLimiter :: "Manager \<Rightarrow> Manager" where
  "releaseLimiter m = (if limiter m > 0 then m\<lparr>limiter := limiter m - 1\<rparr> else m)"

definition countFailed :: "Manager \<Rightarrow> Manager" where
  "countFailed m = m\<lparr>stats := (stats m)\<lparr>FailedCount := wrap64 (FailedCount (stats m) + 1)\<rparr>\<rparr>"

section \<open>Profile sessions\<close>

text \<open>
  The three session structs behind the \<open>ProfileSession\<close> interface. A CPU session
  carries its start time, its buffer and \<open>running\<close>; a heap or goroutine session
  carries its start time, \<open>running\<close> and \<open>stopped\<close>. A \<open>nil\<close> slice and an empty
  slice are both the empty list.

  What the Go runtime delivers is an input: \<open>cpuFlush\<close> is what
  \<open>pprof.StopCPUProfile\<close> still writes into the buffer, \<open>heapWrite\<close> is the outcome
  of \<open>pprof.WriteHeapProfile\<close> (the error text, or the bytes written), and
  \<open>goroutineWrite\<close> is \<open>None\<close> when \<open>pprof.Lookup("goroutine")\<close> is \<open>nil\<close> and the
  outcome of \<open>WriteTo\<close> otherwise.
\<close>

datatype ProfileSession =
    CPUProfileSession int bytes bool
  | HeapProfileSession int bool bool
  | GoroutineProfileSession int bool bool

record runtime =
  cpuFlush :: bytes
  heapWrite :: "string + bytes"
  goroutineWrite :: "(string + bytes) option"

fun GetStartTime :: "ProfileSession \<Rightarrow> int" where
  "GetStartTime (CPUProfileSession startTime buffer running) = startTime"
| "GetStartTime (HeapProfileSession startTime running stopped) = startTime"
| "GetStartTime (GoroutineProfileSession startTime running stopped) = startTime"

fun IsRunning :: "ProfileSession \<Rightarrow> bool" where
  "IsRunning (CPUProfileSession startTime buffer running) = running"
| "IsRunning (HeapProfileSession startTime running stopped) = running"
| "IsRunning (GoroutineProfileSession startTime running stopped) = running"

text \<open>\<open>Stop\<close> returns the bytes, the error (\<open>None\<close> for \<open>nil\<close>) and the session as it leaves it.\<close>

fun Stop :: "runtime \<Rightarrow> ProfileSession \<Rightarrow> (bytes \<times> string option) \<times> ProfileSession" where
  "Stop rt (CPUProfileSession startTime buffer running) =
     (if \<not> running then ((buffer, None), CPUProfileSession startTime buffer running)
      else ((buffer @ cpuFlush rt, None),
            CPUProfileSession startTime (buffer @ cpuFlush rt) False))"
| "Stop rt (HeapProfileSession startTime running stopped) =
     (if stopped then (([], None), HeapProfileSession startTime running stopped)
      else (case heapWrite rt of
              Inl err \<Rightarrow> (([], Some (''failed to write heap profile: '' @ err)),
                          HeapProfileSession startTime False True)
            | Inr written \<Rightarrow> ((written, None), HeapProfileSession startTime False True)))"
| "Stop rt (GoroutineProfileSession startTime running stopped) =
     (if stopped then (([], None), GoroutineProfileSession startTime running stopped)
      else (case goroutineWrite rt of
              None \<Rightarrow> (([], Some ''goroutine profile not found''),
                       GoroutineProfileSession startTime False True)
            | Some (Inl err) \<Rightarrow> (([], Some (''failed to write goroutine profile: '' @ err)),
                                 GoroutineProfileSession startTime False True)
            | Some (Inr written) \<Rightarrow> ((written, None), GoroutineProfileSession startTime False True)))"

text \<open>
  The constructors of the sessions. Only \<open>pprof.StartCPUProfile\<close> can fail; \<open>cpuStart\<close>
  is its error. The goroutine that a constructor starts when \<open>task.Duration > 0\<close> calls
  \<open>Stop\<close> on the session once the timer fires or the context is done; in this
  development that call is a \<open>Stop\<close> of its own, made before the manager's.
\<close>

fun startSession :: "profiler \<Rightarrow> string option \<Rightarrow> int \<Rightarrow> string + ProfileSession" where
  "startSession CPUProfiler cpuStart now =
     (case cpuStart of
        Some err \<Rightarrow> Inl (''failed to start CPU profiling: '' @ err)
      | None \<Rightarrow> Inr (CPUProfileSession now [] True))"
| "startSession HeapProfiler cpuStart now = Inr (HeapProfileSession now True False)"
| "startSession GoroutineProfiler cpuStart now = Inr (GoroutineProfileSession now True False)"

section \<open>Filename synthesis\<close>

text \<open>
  \<open>sanitizePath\<close> of \<open>pkg/core/manager.go\<close> walks over the path with
  \<open>for _, r := range path\<close>, which decodes UTF-8: a byte below 0x80 is a rune of its
  own; a lead byte with the continuation bytes that its row of the table \<open>first\<close>
  of \<open>unicode/utf8\<close> accepts is one rune of two, three or four bytes; any other
  byte is the rune U+FFFD (\<open>RuneError\<close>) and the walk goes on one byte further.
  \<open>leadByte\<close> is that table: the size of the encoding and the range of its second
  byte. \<open>runeWidth\<close> is the size of the valid encoding at the head of a string, and
  zero when there is none.
\<close>

definition leadByte :: "char \<Rightarrow> (nat \<times> nat \<times> nat) option" where
  "leadByte s0 =
     (let x = of_char s0 :: nat
      in if 0xC2 \<le> x \<and> x \<le> 0xDF then Some (2, 0x80, 0xBF)
         else if x = 0xE0 then Some (3, 0xA0, 0xBF)
         else if 0xE1 \<le> x \<and> x \<le> 0xEC then Some (3, 0x80, 0xBF)
         else if x = 0xED then Some (3, 0x80, 0x9F)
         else if 0xEE \<le> x \<and> x \<le> 0xEF then Some (3, 0x80, 0xBF)
         else if x = 0xF0 then Some (4, 0x90, 0xBF)
         else if 0xF1 \<le> x \<and> x \<le> 0xF3 then Some (4, 0x80, 0xBF)
         else if x = 0xF4 then Some (4, 0x80, 0x8F)
         else None)"

definition isCont :: "char \<Rightarrow> bool" where
  "isCont c = (0x80 \<le> (of_char c :: nat) \<and> (of_char c :: nat) \<le> 0xBF)"

definition runeWidth :: "string \<Rightarrow> nat" where
  "runeWidth s =
     (case s of
        [] \<Rightarrow> 0
      | s0 # rest \<Rightarrow>
          if (of_char s0 :: nat) < 0x80 then 1
          else
            (case leadByte s0 of
               None \<Rightarrow> 0
             | Some (sz, lo, hi) \<Rightarrow>
                 if length s < sz then 0
                 else if (of_char (s ! 1) :: nat) < lo \<or> hi < (of_char (s ! 1) :: nat) then 0
                 else if sz \<le> 2 then 2
                 else if \<not> isCont (s ! 2) then 0
                 else if sz \<le> 3 then 3
                 else if \<not> isCont (s ! 3) then 0
                 else 4))"

text \<open>
  The walk of \<open>range\<close> over a string: for every rune, whether its encoding was valid
  and the bytes it spans.
\<close>

function rangeString :: "string \<Rightarrow> (bool \<times> string) list" where
  "rangeString [] = []"
| "rangeString (b # s) =
     (if runeWidth (b # s) = 0 then (False, [b]) # rangeString s
      else (True, take (runeWidth (b # s)) (b # s))
             # rangeString (drop (runeWidth (b # s)) (b # s)))"
  by pat_completeness auto
termination
  by (relation "measure length") auto

declare rangeString.simps [simp del]

text \<open>
  A rune is kept as the bytes of its UTF-8 encoding, which is what \<open>string(result)\<close>
  writes for it: the bytes it was decoded from, and \<open>EF BF BD\<close> for U+FFFD. The keys
  of \<open>replacements\<close> are the nine runes \<open>/ : * ? < > |\<close>, the double quote
  (\<open>CHR 0x22\<close>) and the backslash (\<open>CHR 0x5C\<close>).
\<close>

definition runeError :: string where
  "runeError = [CHR 0xEF, CHR 0xBF, CHR 0xBD]"

fun runeOf :: "bool \<times> string \<Rightarrow> string" where
  "runeOf (ok, bs) = (if ok then bs else runeError)"

definition replacements :: "string \<rightharpoonup> string" where
  "replacements = map_of
     [(''/'', ''_''), ('':'', ''_''), (''*'', ''_''), (''?'', ''_''), (''<'', ''_''),
      (''>'', ''_''), (''|'', ''_''), ([CHR 0x22], ''_''), ([CHR 0x5C], ''_'')]"

fun sanitizeRunes :: "string list \<Rightarrow> string list" where
  "sanitizeRunes [] = []"
| "sanitizeRunes (r # runes) =
     (case replacements r of
        Some replacement \<Rightarrow> replacement # sanitizeRunes runes
      | None \<Rightarrow> r # sanitizeRunes runes)"

definition sanitizePath :: "string \<Rightarrow> string" where
  "sanitizePath path = concat (sanitizeRunes (map runeOf (rangeString path)))"

text \<open>
  Decimal output, as \<open>%d\<close> and the layout of \<open>time.Format\<close> produce it.
  \<open>digitChar\<close> is applied to a digit below ten only.
\<close>

definition digitChar :: "nat \<Rightarrow> char" where
  "digitChar d = ''0123456789'' ! d"

fun showNat :: "nat \<Rightarrow> string" where
  "showNat n = (if n < 10 then [digitChar n] else showNat (n div 10) @ [digitChar (n mod 10)])"

declare showNat.simps [simp del]

definition showInt :: "int \<Rightarrow> string" where
  "showInt i = (if i < 0 then CHR ''-'' # showNat (nat (- i)) else showNat (nat i))"

definition zeroPad :: "nat \<Rightarrow> string \<Rightarrow> string" where
  "zeroPad width s = replicate (width - length s) CHR ''0'' @ s"

text \<open>
  A reading of the wall clock in local time, as \<open>time.Now()\<close> hands it to
  \<open>Format\<close>. The layout \<open>20060102_150405\<close> is the year on four digits, the month,
  the day, an underscore, the hour, the minute and the second, on two digits each.
\<close>

record civil =
  year :: nat
  month :: nat
  day :: nat
  hour :: nat
  minute :: nat
  second :: nat

definition formatStamp :: "civil \<Rightarrow> string" where
  "formatStamp t =
     zeroPad 4 (showNat (year t)) @ zeroPad 2 (showNat (month t)) @ zeroPad 2 (showNat (day t))
     @ ''_'' @ zeroPad 2 (showNat (hour t)) @ zeroPad 2 (showNat (minute t))
     @ zeroPad 2 (showNat (second t))"

text \<open>
  \<open>generateFilename\<close> reads the clock twice: \<open>stamp\<close> is the first reading, in local
  time, and \<open>unixNano\<close> is \<open>UnixNano()\<close> of the second.
\<close>

definition generateFilename :: "civil \<Rightarrow> int \<Rightarrow> string \<Rightarrow> string \<Rightarrow> string \<Rightarrow> string" where
  "generateFilename stamp unixNano path method profileType =
     (let sanitized = sanitizePath path;
          timestamp = formatStamp stamp;
          nanos = goRem unixNano 1000000
      in profileType @ ''/profile_'' @ sanitized @ ''_'' @ method @ ''_'' @ timestamp
         @ ''_'' @ showInt nanos @ ''.pprof'')"

section \<open>Starting and stopping a session\<close>

text \<open>
  \<open>StartProfiling\<close> returns the error or the session. \<open>cpuStart\<close> is the error of
  \<open>pprof.StartCPUProfile\<close>, should the CPU profiler be asked, and \<open>now\<close> the clock.
\<close>

definition StartProfiling :: "string option \<Rightarrow> int \<Rightarrow> Manager \<Rightarrow> string \<Rightarrow> ProfilingTask
    \<Rightarrow> (string + ProfileSession) \<times> Manager" where
  "StartProfiling cpuStart now m path task =
     (case profilers m (ProfileType task) of
        None \<Rightarrow> (Inl (''profiler type '' @ ProfileType task @ '' not found''), releaseLimiter m)
      | Some profiler \<Rightarrow>
          (case startSession profiler cpuStart now of
             Inl err \<Rightarrow> (Inl err, countFailed (releaseLimiter m))
           | Inr session \<Rightarrow>
               (Inr session,
                m\<lparr>stats := (stats m)\<lparr>ActiveProfiles := wrap64 (ActiveProfiles (stats m) + 1),
                                      ProfiledCount := wrap64 (ProfiledCount (stats m) + 1)\<rparr>\<rparr>)))"

record ProfilingResult =
  res_Path :: string
  res_StartTime :: int
  res_Duration :: int
  Filename :: string
  FileSize :: int
  res_ProfileType :: string
  Success :: bool
  Error :: string

text \<open>
  \<open>StopProfiling\<close> returns the result and the error. \<open>now\<close> is the clock that
  \<open>time.Since\<close> reads, \<open>stamp\<close> and \<open>unixNano\<close> are the two readings of
  \<open>generateFilename\<close>, and \<open>saveErr\<close> is what \<open>storage.Save\<close> answers if it is
  called. The deferred \<open>releaseLimiter\<close> runs on every \<open>return\<close>. The session
  is not used again after its \<open>Stop\<close>, so the state \<open>Stop\<close> leaves it in is dropped.
\<close>

definition StopProfiling :: "runtime \<Rightarrow> int \<Rightarrow> civil \<Rightarrow> int \<Rightarrow> string option \<Rightarrow> Manager
    \<Rightarrow> string \<Rightarrow> string \<Rightarrow> ProfilingTask \<Rightarrow> ProfileSession
    \<Rightarrow> (ProfilingResult \<times> string option) \<times> Manager" where
  "StopProfiling rt now stamp unixNano saveErr m path method task session =
     (let startTime = GetStartTime session;
          (data, err) = fst (Stop rt session);
          m1 = m\<lparr>stats := (stats m)\<lparr>ActiveProfiles := wrap64 (ActiveProfiles (stats m) - 1)\<rparr>\<rparr>;
          result = \<lparr>res_Path = path, res_StartTime = startTime, res_Duration = now - startTime,
                    Filename = [], FileSize = 0, res_ProfileType = ProfileType task,
                    Success = (err = None), Error = []\<rparr>
      in case err of
           Some e \<Rightarrow> ((result\<lparr>Error := e\<rparr>, Some e), releaseLimiter (countFailed m1))
         | None \<Rightarrow>
             if length data = 0 then ((result, None), releaseLimiter m1)
             else
               (let filename = generateFilename stamp unixNano path method (ProfileType task);
                    result' = result\<lparr>Filename := filename, FileSize := int (length data)\<rparr>;
                    m2 = m1\<lparr>saved := saved m1 @ [(filename, data)]\<rparr>
                in case saveErr of
                     Some e \<Rightarrow> ((result'\<lparr>Success := False, Error := e\<rparr>, Some e),
                                releaseLimiter (countFailed m2))
                   | None \<Rightarrow> ((result', None), releaseLimiter m2)))"

section \<open>Storage backends\<close>

text \<open>
  \<open>MemoryStorage\<close> of \<open>pkg/adapters/storage/memory.go\<close>: a map from the filename to
  the data and the modification time. \<open>Delete\<close> returns the error (\<open>None\<close> for
  \<open>nil\<close>) and the storage.
\<close>

type_synonym MemoryStorage = "string \<rightharpoonup> bytes \<times> int"

definition MemoryStorage_Delete :: "MemoryStorage \<Rightarrow> string \<Rightarrow> string option \<times> MemoryStorage" where
  "MemoryStorage_Delete files filename =
     (case files filename of
        None \<Rightarrow> (None, files)
      | Some file \<Rightarrow> (None, files(filename := None)))"

text \<open>
  \<open>FileStorage\<close> keeps its files in the file system under \<open>baseDir\<close>. The file
  system is a map from the path to the contents of a regular file; directories are
  not entries of it. \<open>os.Remove\<close> answers with a \<open>*PathError\<close> when the name does
  not exist and removes the file otherwise. \<open>filepath.Join\<close> is a parameter.
\<close>

type_synonym filesystem = "string \<rightharpoonup> bytes"

definition os_Remove :: "filesystem \<Rightarrow> string \<Rightarrow> string option \<times> filesystem" where
  "os_Remove fs name =
     (case fs name of
        None \<Rightarrow> (Some (''remove '' @ name @ '': no such file or directory''), fs)
      | Some contents \<Rightarrow> (None, fs(name := None)))"

definition FileStorage_Delete :: "(string \<Rightarrow> string \<Rightarrow> string) \<Rightarrow> string \<Rightarrow> filesystem \<Rightarrow> string
    \<Rightarrow> string option \<times> filesystem" where
  "FileStorage_Delete filepath_Join baseDir fs filename =
     (let filePath = filepath_Join baseDir filename
      in case os_Remove fs filePath of
           (Some err, fs') \<Rightarrow> (Some err, fs')
         | (None, fs') \<Rightarrow> (None, fs'))"

section \<open>Construction, expiry sweep and sequences of operations\<close>

text \<open>
  \<open>NewManager\<close> with the three profilers it registers; \<open>now\<close> is the clock.
\<close>

definition NewManager :: "Options \<Rightarrow> int \<Rightarrow> Manager" where
  "NewManager opts now =
     \<lparr>tasks = Map.empty,
      stats = \<lparr>TotalRequests = 0, ProfiledCount = 0, FailedCount = 0, ActiveProfiles = 0,
               LastUpdate = now\<rparr>,
      options = opts,
      limiter = 0,
      requestCount = Map.empty,
      profilers = [''cpu'' \<mapsto> CPUProfiler, ''heap'' \<mapsto> HeapProfiler,
                   ''goroutine'' \<mapsto> GoroutineProfiler],
      saved = []\<rparr>"

text \<open>\<open>cleanExpiredTasks\<close> deletes, for every key whose task is past its expiry, the
  task and the counter under that key.\<close>

definition cleanExpiredTasks :: "int \<Rightarrow> Manager \<Rightarrow> Manager" where
  "cleanExpiredTasks now m =
     m\<lparr>tasks := (\<lambda>path. case tasks m path of
                      None \<Rightarrow> None
                    | Some task \<Rightarrow> if now > ExpiresAt task then None else Some task),
       requestCount := (\<lambda>path. case tasks m path of
                      None \<Rightarrow> requestCount m path
                    | Some task \<Rightarrow> if now > ExpiresAt task then None else requestCount m path)\<rparr>"

text \<open>
  A sequence of calls of \<open>ShouldProfile\<close> on one manager. Each call comes with its
  path and method, the clock, the order in which the task table is walked, and
  \<open>c_held\<close>, the number of tokens in the limiter when the call is made:
  \<open>StartProfiling\<close> and \<open>StopProfiling\<close> of other requests change it between two
  calls.
\<close>

record call =
  c_path :: string
  c_method :: string
  c_now :: int
  c_order :: "string list"
  c_held :: nat

fun calls :: "(string \<Rightarrow> string \<Rightarrow> bool) \<Rightarrow> Manager \<Rightarrow> call list \<Rightarrow> verdict list \<times> Manager" where
  "calls pathMatch m [] = ([], m)"
| "calls pathMatch m (c # cs) =
     (let (v, m') = ShouldProfile pathMatch (c_order c) (c_now c) (m\<lparr>limiter := c_held c\<rparr>)
                      (c_path c) (c_method c);
          (vs, m'') = calls pathMatch m' cs
      in (v # vs, m''))"


fun isSampled :: "ProfilingTask \<Rightarrow> verdict \<Rightarrow> bool" where
  "isSampled T (NoPermit task) = (task = T)"
| "isSampled T (Admitted task) = (task = T)"
| "isSampled T v = False"




text \<open>
  The middleware calls \<open>ShouldProfile\<close>, then \<open>StartProfiling\<close> on the task it was
  given, then \<open>StopProfiling\<close> on the session it was given. Requests run side by
  side, so between two operations of one request come operations of others. A
  \<open>system\<close> is the manager with the requests that were admitted and have not
  started yet and the sessions that were started and have not been stopped by the
  manager yet.
\<close>

record system =
  mgr :: Manager
  admitted :: "(string \<times> string \<times> ProfilingTask) list"
  sessions :: "(string \<times> string \<times> ProfilingTask \<times> ProfileSession) list"

datatype event =
    Request string string int "string list"
  | Start nat "string option" int
  | TimerStop nat runtime
  | Finish nat runtime int civil int "string option"
  | Update int "ProfilingTask list"
  | Sweep int

definition removeAt :: "nat \<Rightarrow> 'a list \<Rightarrow> 'a list" where
  "removeAt i xs = take i xs @ drop (Suc i) xs"

text \<open>
  \<open>Request\<close> is a call of \<open>ShouldProfile\<close>; \<open>Start i\<close> is \<open>StartProfiling\<close> for the
  \<open>i\<close>-th admitted request; \<open>TimerStop i\<close> is the \<open>Stop\<close> that the timer of the
  \<open>i\<close>-th session makes; \<open>Finish i\<close> is \<open>StopProfiling\<close> on the \<open>i\<close>-th session;
  \<open>Update\<close> is \<open>updateTasks\<close> and \<open>Sweep\<close> is \<open>cleanExpiredTasks\<close>. An event that
  names a request or session that is not there does not happen: \<open>None\<close>.
\<close>

fun step :: "(string \<Rightarrow> string \<Rightarrow> bool) \<Rightarrow> system \<Rightarrow> event \<Rightarrow> system option" where
  "step pathMatch s (Request path method now order) =
     (case ShouldProfile pathMatch order now (mgr s) path method of
        (Admitted task, m') \<Rightarrow> Some (s\<lparr>mgr := m', admitted := admitted s @ [(path, method, task)]\<rparr>)
      | (v, m') \<Rightarrow> Some (s\<lparr>mgr := m'\<rparr>))"
| "step pathMatch s (Start i cpuStart now) =
     (if i < length (admitted s) then
        (case admitted s ! i of (path, method, task) \<Rightarrow>
           (case StartProfiling cpuStart now (mgr s) path task of
              (Inl err, m') \<Rightarrow> Some (s\<lparr>mgr := m', admitted := removeAt i (admitted s)\<rparr>)
            | (Inr session, m') \<Rightarrow>
                Some (s\<lparr>mgr := m', admitted := removeAt i (admitted s),
                        sessions := sessions s @ [(path, method, task, session)]\<rparr>)))
      else None)"
| "step pathMatch s (TimerStop i rt) =
     (if i < length (sessions s) then
        (case sessions s ! i of (path, method, task, session) \<Rightarrow>
           Some (s\<lparr>sessions := (sessions s)[i := (path, method, task, snd (Stop rt session))]\<rparr>))
      else None)"
| "step pathMatch s (Finish i rt now stamp unixNano saveErr) =
     (if i < length (sessions s) then
        (case sessions s ! i of (path, method, task, session) \<Rightarrow>
           Some (s\<lparr>mgr := snd (StopProfiling rt now stamp unixNano saveErr (mgr s) path method
                                 task session),
                   sessions := removeAt i (sessions s)\<rparr>))
      else None)"
| "step pathMatch s (Update now newTasks) = Some (s\<lparr>mgr := updateTasks now newTasks (mgr s)\<rparr>)"
| "step pathMatch s (Sweep now) = Some (s\<lparr>mgr := cleanExpiredTasks now (mgr s)\<rparr>)"

fun run :: "(string \<Rightarrow> string \<Rightarrow> bool) \<Rightarrow> system \<Rightarrow> event list \<Rightarrow> system option" where
  "run pathMatch s [] = Some s"
| "run pathMatch s (e # es) =
     (case step pathMatch s e of None \<Rightarrow> None | Some s' \<Rightarrow> run pathMatch s' es)"

definition boot :: "Options \<Rightarrow> int \<Rightarrow> system" where
  "boot opts now = \<lparr>mgr = NewManager opts now, admitted = [], sessions = []\<rparr>"

text \<open>
  The bookkeeping of permits: the options are those of the construction, the active
  profiles are the open sessions, and every admitted request and every open
  session holds one permit of the limiter, which never holds more than its
  capacity.
\<close>

definition accounted :: "Options \<Rightarrow> system \<Rightarrow> bool" where
  "accounted opts s \<longleftrightarrow>
     options (mgr s) = opts
     \<and> ActiveProfiles (stats (mgr s)) = int (length (sessions s))
     \<and> limiter (mgr s) = length (admitted s) + length (sessions s)
     \<and> limiter (mgr s) \<le> MaxConcurrent opts"

section \<open>A small configuration\<close>

text \<open>
  Two tasks, the options and a path matcher for the concrete instances below:
  \<open>taskA\<close> profiles every request to \<open>/a\<close> and expires at instant 100, \<open>taskB\<close>
  profiles every second request to \<open>/b\<close>; the matcher accepts a path that equals
  the template.
\<close>

definition taskA :: ProfilingTask where
  "taskA = \<lparr>Path = ''/a'', Methods = [''GET''], ExpiresAt = 100, Duration = 30, SampleRate = 1,
             ProfileType = ''cpu''\<rparr>"

definition taskB :: ProfilingTask where
  "taskB = \<lparr>Path = ''/b'', Methods = [''GET''], ExpiresAt = 100, Duration = 30, SampleRate = 2,
             ProfileType = ''heap''\<rparr>"

definition oneAtATime :: Options where
  "oneAtATime = \<lparr>MaxConcurrent = 1, Enabled = True\<rparr>"

definition exactMatch :: "string \<Rightarrow> string \<Rightarrow> bool" where
  "exactMatch template actual = (template = actual)"





section \<open>Method matching\<close>

lemma contains_iff: "contains items item \<longleftrightarrow> (\<exists>s \<in> set items. EqualFold s item)"
  by (induction items) auto

lemma EqualFold_star: "EqualFold s ''*'' \<longleftrightarrow> s = ''*''"
proof (cases s)
  case Nil
  then show ?thesis by simp
next
  case (Cons a t)
  then show ?thesis
    by (cases t) (auto simp: foldEqByte_def Let_def split: if_splits)
qed

text \<open>
  What \<open>ShouldMatchMethod\<close> computes in each of its three branches: the branch for
  an empty list compares the method with the string \<open>GET\<close> itself, the other two
  compare under case folding.
\<close>

lemma ShouldMatchMethod_cases:
  "ShouldMatchMethod task requestMethod =
     (if Methods task = [] then requestMethod = ''GET''
      else if ''*'' \<in> set (Methods task) then (\<exists>c \<in> set CommonMethods. EqualFold c requestMethod)
      else (\<exists>s \<in> set (Methods task). EqualFold s requestMethod))"
  by (auto simp: ShouldMatchMethod_def contains_iff EqualFold_star)

text \<open>
  C6. Method matching is meant to be case-insensitive, with an empty list of methods
  standing for \<open>GET\<close>. On the code, a task without methods refuses the method
  \<open>get\<close>, while the same task with the methods \<open>["GET"]\<close> or \<open>["*"]\<close> accepts it:
  the branch for the empty list uses \<open>==\<close> where the two others use \<open>contains\<close>.
\<close>

theorem ShouldMatchMethod_default_is_case_sensitive:
  "ShouldMatchMethod \<lparr>Path = ''/api/health'', Methods = [], ExpiresAt = 100, Duration = 30,
       SampleRate = 1, ProfileType = ''cpu''\<rparr> ''get'' = False
   \<and> ShouldMatchMethod \<lparr>Path = ''/api/health'', Methods = [''GET''], ExpiresAt = 100, Duration = 30,
       SampleRate = 1, ProfileType = ''cpu''\<rparr> ''get'' = True
   \<and> ShouldMatchMethod \<lparr>Path = ''/api/health'', Methods = [''*''], ExpiresAt = 100, Duration = 30,
       SampleRate = 1, ProfileType = ''cpu''\<rparr> ''get'' = True"
  by (simp add: ShouldMatchMethod_def CommonMethods_def foldEqByte_def)

section \<open>Deleting from a storage backend\<close>

lemma MemoryStorage_Delete_no_error: "fst (MemoryStorage_Delete files filename) = None"
  by (simp add: MemoryStorage_Delete_def split: option.splits)

lemma FileStorage_Delete_error_iff:
  "fst (FileStorage_Delete filepath_Join baseDir fs filename) = None
     \<longleftrightarrow> fs (filepath_Join baseDir filename) \<noteq> None"
  by (cases "fs (filepath_Join baseDir filename)")
     (simp_all add: FileStorage_Delete_def os_Remove_def Let_def)

text \<open>
  C9. Deleting an entry that is not there is meant to be no error in every backend.
  The in-memory backend returns \<open>nil\<close>; the file backend returns the error of
  \<open>os.Remove\<close>: on an empty directory, deleting \<open>cpu/a.pprof\<close> fails.
\<close>

theorem FileStorage_Delete_missing_file_fails:
  "FileStorage_Delete (\<lambda>dir name. dir @ ''/'' @ name) ''profiles'' Map.empty ''cpu/a.pprof''
     = (Some ''remove profiles/cpu/a.pprof: no such file or directory'', Map.empty)
   \<and> MemoryStorage_Delete Map.empty ''cpu/a.pprof'' = (None, Map.empty)"
  by (simp add: FileStorage_Delete_def os_Remove_def MemoryStorage_Delete_def)

section \<open>Stopping a session twice\<close>

lemma Stop_twice_cpu:
  "fst (Stop rt' (snd (Stop rt (CPUProfileSession startTime buffer running))))
     = fst (Stop rt (CPUProfileSession startTime buffer running))"
  by simp

lemma Stop_after_Stop_snapshot:
  assumes "session = HeapProfileSession startTime running stopped
           \<or> session = GoroutineProfileSession startTime running stopped"
  shows "fst (Stop rt (snd (Stop rt0 session))) = ([], None)"
  using assms by (auto split: sum.splits option.splits)

text \<open>
  C2. \<open>Stop\<close> is meant to be idempotent in every mode, the second call returning
  the bytes that the first one captured. A CPU session does that
  (\<open>Stop_twice_cpu\<close>). A heap session whose first \<open>Stop\<close> captured the bytes
  \<open>1, 2, 3\<close> returns no bytes from the second, and so does a goroutine session.
\<close>

theorem Stop_twice_snapshot_differs:
  "fst (Stop \<lparr>cpuFlush = [], heapWrite = Inr [1, 2, 3], goroutineWrite = Some (Inr [4, 5])\<rparr>
          (HeapProfileSession 0 True False)) = ([1, 2, 3], None)
   \<and> fst (Stop \<lparr>cpuFlush = [], heapWrite = Inr [1, 2, 3], goroutineWrite = Some (Inr [4, 5])\<rparr>
          (snd (Stop \<lparr>cpuFlush = [], heapWrite = Inr [1, 2, 3], goroutineWrite = Some (Inr [4, 5])\<rparr>
             (HeapProfileSession 0 True False)))) = ([], None)
   \<and> fst (Stop \<lparr>cpuFlush = [], heapWrite = Inr [1, 2, 3], goroutineWrite = Some (Inr [4, 5])\<rparr>
          (GoroutineProfileSession 0 True False)) = ([4, 5], None)
   \<and> fst (Stop \<lparr>cpuFlush = [], heapWrite = Inr [1, 2, 3], goroutineWrite = Some (Inr [4, 5])\<rparr>
          (snd (Stop \<lparr>cpuFlush = [], heapWrite = Inr [1, 2, 3], goroutineWrite = Some (Inr [4, 5])\<rparr>
             (GoroutineProfileSession 0 True False)))) = ([], None)"
  by simp

section \<open>StopProfiling on an empty artifact\<close>

text \<open>
  C8. Whenever \<open>session.Stop\<close> returns no bytes and no error, \<open>StopProfiling\<close>
  returns a result with \<open>Success\<close> set and no error, the filename of the result is
  left empty, and \<open>storage.Save\<close> is not called.
\<close>

theorem StopProfiling_empty_artifact:
  assumes "fst (Stop rt session) = ([], None)"
  shows "Success (fst (fst (StopProfiling rt now stamp unixNano saveErr m path method task session)))
    \<and> Filename (fst (fst (StopProfiling rt now stamp unixNano saveErr m path method task session))) = []
    \<and> snd (fst (StopProfiling rt now stamp unixNano saveErr m path method task session)) = None
    \<and> saved (snd (StopProfiling rt now stamp unixNano saveErr m path method task session)) = saved m"
  using assms by (simp add: StopProfiling_def releaseLimiter_def Let_def)

theorem StopProfiling_empty_artifact_witness:
  "fst (Stop \<lparr>cpuFlush = [], heapWrite = Inr [1, 2, 3], goroutineWrite = None\<rparr>
         (CPUProfileSession 5 [] True)) = ([], None)
   \<and> Success (fst (fst (StopProfiling \<lparr>cpuFlush = [], heapWrite = Inr [1, 2, 3], goroutineWrite = None\<rparr>
         9 \<lparr>year = 2025, month = 3, day = 9, hour = 7, minute = 5, second = 0\<rparr> 1741503900123456789
         None (NewManager \<lparr>MaxConcurrent = 3, Enabled = True\<rparr> 0) ''/a'' ''GET''
         \<lparr>Path = ''/a'', Methods = [], ExpiresAt = 100, Duration = 30, SampleRate = 1,
           ProfileType = ''cpu''\<rparr> (CPUProfileSession 5 [] True))))
   \<and> saved (snd (StopProfiling \<lparr>cpuFlush = [], heapWrite = Inr [1, 2, 3], goroutineWrite = None\<rparr>
         9 \<lparr>year = 2025, month = 3, day = 9, hour = 7, minute = 5, second = 0\<rparr> 1741503900123456789
         None (NewManager \<lparr>MaxConcurrent = 3, Enabled = True\<rparr> 0) ''/a'' ''GET''
         \<lparr>Path = ''/a'', Methods = [], ExpiresAt = 100, Duration = 30, SampleRate = 1,
           ProfileType = ''cpu''\<rparr> (CPUProfileSession 5 [] True))) = []"
proof -
  have h: "fst (Stop \<lparr>cpuFlush = [], heapWrite = Inr [1, 2, 3], goroutineWrite = None\<rparr>
         (CPUProfileSession 5 [] True)) = ([], None)"
    by simp
  show ?thesis
    using h StopProfiling_empty_artifact [OF h, of 9
        "\<lparr>year = 2025, month = 3, day = 9, hour = 7, minute = 5, second = 0\<rparr>"
        1741503900123456789 None "NewManager \<lparr>MaxConcurrent = 3, Enabled = True\<rparr> 0" "''/a''" "''GET''"
        "\<lparr>Path = ''/a'', Methods = [], ExpiresAt = 100, Duration = 30, SampleRate = 1,
           ProfileType = ''cpu''\<rparr>"]
    by (simp add: NewManager_def)
qed

section \<open>StopProfiling after the session's own timer\<close>

text \<open>
  C10. When the timer of a heap or goroutine session (or the cancellation of its
  context) has called \<open>Stop\<close> already, the \<open>Stop\<close> that \<open>StopProfiling\<close> makes
  returns no bytes and no error; \<open>StopProfiling\<close> then reports success with an
  empty filename and does not call \<open>storage.Save\<close>, so what the first \<open>Stop\<close>
  captured reaches no storage.
\<close>

theorem StopProfiling_after_timer_discards:
  assumes "session = HeapProfileSession startTime running stopped
           \<or> session = GoroutineProfileSession startTime running stopped"
  shows "fst (Stop rt (snd (Stop rt0 session))) = ([], None)
    \<and> Success (fst (fst (StopProfiling rt now stamp unixNano saveErr m path method task
                           (snd (Stop rt0 session)))))
    \<and> Filename (fst (fst (StopProfiling rt now stamp unixNano saveErr m path method task
                            (snd (Stop rt0 session))))) = []
    \<and> snd (fst (StopProfiling rt now stamp unixNano saveErr m path method task
                   (snd (Stop rt0 session)))) = None
    \<and> saved (snd (StopProfiling rt now stamp unixNano saveErr m path method task
                     (snd (Stop rt0 session)))) = saved m"
proof -
  have e: "fst (Stop rt (snd (Stop rt0 session))) = ([], None)"
    using assms by (rule Stop_after_Stop_snapshot)
  then show ?thesis
    by (simp add: StopProfiling_def releaseLimiter_def Let_def)
qed

theorem StopProfiling_after_timer_discards_witness:
  "fst (Stop \<lparr>cpuFlush = [], heapWrite = Inr [1, 2, 3], goroutineWrite = None\<rparr>
         (HeapProfileSession 5 True False)) = ([1, 2, 3], None)
   \<and> Success (fst (fst (StopProfiling \<lparr>cpuFlush = [], heapWrite = Inr [7, 8], goroutineWrite = None\<rparr>
         9 \<lparr>year = 2025, month = 3, day = 9, hour = 7, minute = 5, second = 0\<rparr> 1741503900123456789
         None (NewManager \<lparr>MaxConcurrent = 3, Enabled = True\<rparr> 0) ''/a'' ''GET''
         \<lparr>Path = ''/a'', Methods = [], ExpiresAt = 100, Duration = 30, SampleRate = 1,
           ProfileType = ''heap''\<rparr>
         (snd (Stop \<lparr>cpuFlush = [], heapWrite = Inr [1, 2, 3], goroutineWrite = None\<rparr>
                (HeapProfileSession 5 True False))))))
   \<and> saved (snd (StopProfiling \<lparr>cpuFlush = [], heapWrite = Inr [7, 8], goroutineWrite = None\<rparr>
         9 \<lparr>year = 2025, month = 3, day = 9, hour = 7, minute = 5, second = 0\<rparr> 1741503900123456789
         None (NewManager \<lparr>MaxConcurrent = 3, Enabled = True\<rparr> 0) ''/a'' ''GET''
         \<lparr>Path = ''/a'', Methods = [], ExpiresAt = 100, Duration = 30, SampleRate = 1,
           ProfileType = ''heap''\<rparr>
         (snd (Stop \<lparr>cpuFlush = [], heapWrite = Inr [1, 2, 3], goroutineWrite = None\<rparr>
                (HeapProfileSession 5 True False))))) = []"
proof -
  have h: "HeapProfileSession 5 True False = HeapProfileSession 5 True False
           \<or> HeapProfileSession 5 True False = GoroutineProfileSession 5 True False"
    by simp
  have first: "fst (Stop \<lparr>cpuFlush = [], heapWrite = Inr [1, 2, 3], goroutineWrite = None\<rparr>
         (HeapProfileSession 5 True False)) = ([1, 2, 3], None)"
    by simp
  have "saved (NewManager \<lparr>MaxConcurrent = 3, Enabled = True\<rparr> 0) = []"
    by (simp add: NewManager_def)
  with first show ?thesis
    using StopProfiling_after_timer_discards [OF h,
        of "\<lparr>cpuFlush = [], heapWrite = Inr [7, 8], goroutineWrite = None\<rparr>"
           "\<lparr>cpuFlush = [], heapWrite = Inr [1, 2, 3], goroutineWrite = None\<rparr>"
           9 "\<lparr>year = 2025, month = 3, day = 9, hour = 7, minute = 5, second = 0\<rparr>"
           1741503900123456789 None "NewManager \<lparr>MaxConcurrent = 3, Enabled = True\<rparr> 0"
           "''/a''" "''GET''"
           "\<lparr>Path = ''/a'', Methods = [], ExpiresAt = 100, Duration = 30, SampleRate = 1,
             ProfileType = ''heap''\<rparr>"]
    by simp
qed

section \<open>The synthesized filename\<close>

text \<open>The walk of \<open>range\<close> cuts the string into pieces and loses no byte.\<close>

lemma concat_rangeString: "concat (map snd (rangeString s)) = s"
  by (induction s rule: rangeString.induct) (simp_all add: rangeString.simps)

lemma leadByte_Some:
  assumes "leadByte b = Some (sz, lo, hi)"
  shows "(sz = 2 \<or> sz = 3 \<or> sz = 4) \<and> 0x80 \<le> lo \<and> (0x80 :: nat) \<le> of_char b"
  using assms by (auto simp: leadByte_def Let_def split: if_splits)

text \<open>A valid encoding is one byte below 0x80, or two to four bytes from 0x80 on.\<close>

lemma runeWidth_valid:
  assumes "runeWidth s \<noteq> 0"
  shows "runeWidth s \<le> length s
    \<and> ((runeWidth s = 1 \<and> (of_char (s ! 0) :: nat) < 0x80)
        \<or> (2 \<le> runeWidth s \<and> (\<forall>i < runeWidth s. (0x80 :: nat) \<le> of_char (s ! i))))"
proof (cases s)
  case Nil
  then show ?thesis using assms by (simp add: runeWidth_def)
next
  case (Cons s0 rest)
  show ?thesis
  proof (cases "(of_char s0 :: nat) < 0x80")
    case True
    then have "runeWidth s = 1" using Cons by (simp add: runeWidth_def)
    then show ?thesis using True Cons by simp
  next
    case high: False
    show ?thesis
    proof (cases "leadByte s0")
      case None
      then have "runeWidth s = 0" using Cons high by (simp add: runeWidth_def)
      then show ?thesis using assms by simp
    next
      case (Some t)
      obtain sz lo hi where t: "t = (sz, lo, hi)" by (cases t)
      note lb = leadByte_Some [OF Some [unfolded t]]
      have w: "runeWidth s =
          (if length s < sz then 0
           else if (of_char (s ! 1) :: nat) < lo \<or> hi < (of_char (s ! 1) :: nat) then 0
           else if sz \<le> 2 then 2
           else if \<not> isCont (s ! 2) then 0
           else if sz \<le> 3 then 3
           else if \<not> isCont (s ! 3) then 0
           else 4)"
        using Cons high Some t by (simp add: runeWidth_def)
      have len: "sz \<le> length s" using assms w by (simp split: if_splits)
      have b1: "lo \<le> (of_char (s ! 1) :: nat)" using assms w by (simp split: if_splits)
      then have h1: "(0x80 :: nat) \<le> of_char (s ! 1)" using lb by simp
      have h0: "(0x80 :: nat) \<le> of_char (s ! 0)" using Cons high by simp
      from lb consider "sz = 2" | "sz = 3" | "sz = 4" by blast
      then show ?thesis
      proof cases
        case 1
        then have "runeWidth s = 2" using assms w by (simp split: if_splits)
        moreover have "\<forall>i < (2::nat). (0x80 :: nat) \<le> of_char (s ! i)"
          using h0 h1 by (auto simp: less_Suc_eq numeral_2_eq_2)
        ultimately show ?thesis using len 1 by simp
      next
        case 2
        then have r: "runeWidth s = 3" and c2: "isCont (s ! 2)"
          using assms w by (simp_all split: if_splits)
        have h2: "(0x80 :: nat) \<le> of_char (s ! 2)" using c2 by (simp add: isCont_def)
        have "\<forall>i < (3::nat). (0x80 :: nat) \<le> of_char (s ! i)"
          using h0 h1 h2 by (auto simp: less_Suc_eq numeral_3_eq_3 numeral_2_eq_2)
        then show ?thesis using len 2 r by simp
      next
        case 3
        then have r: "runeWidth s = 4" and c2: "isCont (s ! 2)" and c3: "isCont (s ! 3)"
          using assms w by (simp_all split: if_splits)
        have h2: "(0x80 :: nat) \<le> of_char (s ! 2)" using c2 by (simp add: isCont_def)
        have h3: "(0x80 :: nat) \<le> of_char (s ! 3)" using c3 by (simp add: isCont_def)
        have "\<forall>i < (4::nat). (0x80 :: nat) \<le> of_char (s ! i)"
        proof (intro allI impI)
          fix i :: nat assume "i < 4"
          then consider "i = 0" | "i = 1" | "i = 2" | "i = 3" by linarith
          then show "(0x80 :: nat) \<le> of_char (s ! i)" using h0 h1 h2 h3 by cases simp_all
        qed
        then show ?thesis using len 3 r by simp
      qed
    qed
  qed
qed

lemma replacements_single:
  "replacements [c] =
     (if c \<in> set [CHR ''/'', CHR '':'', CHR ''*'', CHR ''?'', CHR ''<'', CHR ''>'', CHR ''|'',
                    CHR 0x22, CHR 0x5C]
      then Some ''_'' else None)"
  by (simp add: replacements_def)

lemma replacements_length: "replacements r = Some x \<Longrightarrow> length r = 1"
  by (auto simp: replacements_def split: if_splits)

lemma high_byte_kept:
  assumes "(0x80 :: nat) \<le> of_char c"
  shows "c \<notin> set [CHR ''/'', CHR '':'', CHR ''*'', CHR ''?'', CHR ''<'', CHR ''>'', CHR ''|'',
                    CHR 0x22, CHR 0x5C]"
  using assms by auto

text \<open>On a validly encoded rune the lookup in the table is the replacement byte by byte.\<close>

lemma sanitize_valid_rune:
  assumes "runeWidth s \<noteq> 0"
  shows "(case replacements (take (runeWidth s) s) of Some replacement \<Rightarrow> replacement
          | None \<Rightarrow> take (runeWidth s) s)
       = map (\<lambda>c. if c \<in> set [CHR ''/'', CHR '':'', CHR ''*'', CHR ''?'', CHR ''<'', CHR ''>'',
                                  CHR ''|'', CHR 0x22, CHR 0x5C]
                   then CHR ''_'' else c) (take (runeWidth s) s)"
proof -
  note v = runeWidth_valid [OF assms]
  from v have len: "runeWidth s \<le> length s" by blast
  from v consider "runeWidth s = 1" | "2 \<le> runeWidth s"
      and "\<forall>i < runeWidth s. (0x80 :: nat) \<le> of_char (s ! i)"
    by blast
  then show ?thesis
  proof cases
    case 1
    then obtain b rest where s: "s = b # rest" using len by (cases s) auto
    have "take (runeWidth s) s = [b]" using 1 s by simp
    then show ?thesis by (simp add: replacements_single)
  next
    case 2
    have l: "length (take (runeWidth s) s) = runeWidth s" using len by simp
    have none: "replacements (take (runeWidth s) s) = None"
    proof (cases "replacements (take (runeWidth s) s)")
      case None
      then show ?thesis .
    next
      case (Some x)
      then have "length (take (runeWidth s) s) = 1" by (rule replacements_length)
      then show ?thesis using l 2(1) by simp
    qed
    have hb: "\<forall>c \<in> set (take (runeWidth s) s). (0x80 :: nat) \<le> of_char c"
    proof
      fix c assume "c \<in> set (take (runeWidth s) s)"
      then obtain i where "i < runeWidth s" and "c = s ! i"
        using l by (auto simp: in_set_conv_nth)
      then show "(0x80 :: nat) \<le> of_char c" using 2(2) by simp
    qed
    have "map (\<lambda>c. if c \<in> set [CHR ''/'', CHR '':'', CHR ''*'', CHR ''?'', CHR ''<'', CHR ''>'',
                                  CHR ''|'', CHR 0x22, CHR 0x5C]
                   then CHR ''_'' else c) (take (runeWidth s) s) = take (runeWidth s) s"
    proof (rule map_idI)
      fix c assume "c \<in> set (take (runeWidth s) s)"
      with hb have "(0x80 :: nat) \<le> of_char c" by blast
      then have "c \<notin> set [CHR ''/'', CHR '':'', CHR ''*'', CHR ''?'', CHR ''<'', CHR ''>'',
                                  CHR ''|'', CHR 0x22, CHR 0x5C]"
        by (rule high_byte_kept)
      then show "(if c \<in> set [CHR ''/'', CHR '':'', CHR ''*'', CHR ''?'', CHR ''<'', CHR ''>'',
                                  CHR ''|'', CHR 0x22, CHR 0x5C]
                   then CHR ''_'' else c) = c"
        by (rule if_not_P)
    qed
    then show ?thesis using none by simp
  qed
qed

lemma replacements_runeError: "replacements runeError = None"
  by (simp add: replacements_def runeError_def)

text \<open>
  What \<open>sanitizePath\<close> writes, rune by rune: a valid rune with the nine characters
  replaced, and U+FFFD for a byte that starts no valid encoding.
\<close>

lemma sanitizePath_runes:
  "sanitizePath path =
     concat (map (\<lambda>(ok, bs).
                    if ok
                    then map (\<lambda>c. if c \<in> set [CHR ''/'', CHR '':'', CHR ''*'', CHR ''?'', CHR ''<'',
                                               CHR ''>'', CHR ''|'', CHR 0x22, CHR 0x5C]
                                then CHR ''_'' else c) bs
                    else runeError)
             (rangeString path))"
  unfolding sanitizePath_def
proof (induction path rule: rangeString.induct)
  case 1
  then show ?case by (simp add: rangeString.simps)
next
  case (2 b s)
  show ?case
  proof (cases "runeWidth (b # s) = 0")
    case True
    then show ?thesis using 2(1) by (simp add: replacements_runeError rangeString.simps)
  next
    case False
    note r = sanitize_valid_rune [OF False]
    show ?thesis
    proof (cases "replacements (take (runeWidth (b # s)) (b # s))")
      case None
      then show ?thesis using False 2(2) r by (simp add: rangeString.simps)
    next
      case (Some x)
      then show ?thesis using False 2(2) r by (simp add: rangeString.simps)
    qed
  qed
qed

lemma sanitizePath_valid:
  assumes "list_all fst (rangeString path)"
  shows "sanitizePath path =
     map (\<lambda>c. if c \<in> set [CHR ''/'', CHR '':'', CHR ''*'', CHR ''?'', CHR ''<'',
                                               CHR ''>'', CHR ''|'', CHR 0x22, CHR 0x5C]
                                then CHR ''_'' else c) path"
proof -
  let ?rep = "\<lambda>c. if c \<in> set [CHR ''/'', CHR '':'', CHR ''*'', CHR ''?'', CHR ''<'',
                                               CHR ''>'', CHR ''|'', CHR 0x22, CHR 0x5C]
                                then CHR ''_'' else c"
  have "sanitizePath path = concat (map (\<lambda>(ok, bs). if ok then map ?rep bs else runeError) (rangeString path))"
    by (rule sanitizePath_runes)
  also have "\<dots> = concat (map (map ?rep \<circ> snd) (rangeString path))"
    using assms by (intro arg_cong [where f = concat] map_cong) (auto simp: list_all_iff)
  also have "\<dots> = map ?rep (concat (map snd (rangeString path)))"
    by (simp add: map_concat)
  finally show ?thesis by (simp add: concat_rangeString)
qed

lemma ascii_valid:
  "\<forall>c \<in> set path. (of_char c :: nat) < 0x80 \<Longrightarrow> list_all fst (rangeString path)"
proof (induction path)
  case Nil
  then show ?case by (simp add: rangeString.simps)
next
  case (Cons b s)
  then have "runeWidth (b # s) = 1" by (simp add: runeWidth_def)
  then show ?case using Cons by (simp add: rangeString.simps)
qed

lemma goRem_nonneg: "0 \<le> a \<Longrightarrow> 0 < b \<Longrightarrow> goRem a b = a mod b"
  by (cases "a = 0") (simp_all add: goRem_def)

lemma showNat_small: "n < 10 \<Longrightarrow> showNat n = [digitChar n]"
  by (subst showNat.simps) simp

lemma showNat_big: "\<not> n < 10 \<Longrightarrow> showNat n = showNat (n div 10) @ [digitChar (n mod 10)]"
  by (subst showNat.simps) simp

lemma replicate_small:
  "replicate 2 x = [x, x]" "replicate 3 x = [x, x, x]"
  by (simp_all add: numeral_2_eq_2 numeral_3_eq_3)

lemma zeroPad2:
  assumes "n < 100"
  shows "zeroPad 2 (showNat n) = [''0123456789'' ! (n div 10), ''0123456789'' ! (n mod 10)]"
proof (cases "n < 10")
  case True
  then show ?thesis by (simp add: showNat_small zeroPad_def digitChar_def)
next
  case False
  then have "n div 10 < 10" using assms by simp
  then show ?thesis using False
    by (simp add: showNat_big showNat_small zeroPad_def digitChar_def)
qed

lemma zeroPad4:
  assumes "n < 10000"
  shows "zeroPad 4 (showNat n) =
     [''0123456789'' ! (n div 1000), ''0123456789'' ! (n div 100 mod 10),
      ''0123456789'' ! (n div 10 mod 10), ''0123456789'' ! (n mod 10)]"
proof -
  have d2: "n div 10 div 10 = n div 100" and d3: "n div 10 div 10 div 10 = n div 1000"
    and d4: "n div 100 div 10 = n div 1000"
    by (simp_all add: div_mult2_eq [symmetric])
  consider "n < 10" | "10 \<le> n" "n < 100" | "100 \<le> n" "n < 1000" | "1000 \<le> n"
    by linarith
  then show ?thesis
  proof cases
    case 1
    then show ?thesis by (simp add: showNat_small zeroPad_def digitChar_def replicate_small)
  next
    case 2
    then have "n div 10 < 10" by simp
    then show ?thesis using 2
      by (simp add: showNat_big showNat_small zeroPad_def digitChar_def replicate_small)
  next
    case 3
    then have a: "\<not> n div 10 < 10" and b: "n div 100 < 10" by simp_all
    have c: "\<not> n < 10" using 3 by simp
    have e: "n div 1000 = 0" using 3 by simp
    have m: "n div 100 mod 10 = n div 100" using b by simp
    show ?thesis
      by (simp add: showNat_big [OF c] showNat_big [OF a] d2 showNat_small [OF b]
            zeroPad_def digitChar_def replicate_small e m)
  next
    case 4
    then have a: "\<not> n div 10 < 10" and b: "\<not> n div 100 < 10" and f: "n div 1000 < 10"
      using assms by simp_all
    have c: "\<not> n < 10" using 4 by simp
    have m: "n div 1000 mod 10 = n div 1000" using f by simp
    show ?thesis
      using showNat_big [OF c] showNat_big [OF a] showNat_big [OF b [folded d2]]
        showNat_small [OF f [folded d3]]
      by (simp add: d2 d3 d4 m zeroPad_def digitChar_def replicate_small)
  qed
qed

text \<open>The layout, digit by digit.\<close>

lemma formatStamp_digits:
  assumes "year t < 10000" "month t < 100" "day t < 100" "hour t < 100" "minute t < 100"
    "second t < 100"
  shows "formatStamp t =
     map (\<lambda>d. ''0123456789'' ! d)
       [year t div 1000, year t div 100 mod 10, year t div 10 mod 10, year t mod 10,
        month t div 10, month t mod 10, day t div 10, day t mod 10]
     @ ''_''
     @ map (\<lambda>d. ''0123456789'' ! d)
       [hour t div 10, hour t mod 10, minute t div 10, minute t mod 10,
        second t div 10, second t mod 10]"
  using assms by (simp add: formatStamp_def zeroPad2 zeroPad4)

lemma digitChar_code: "d < 10 \<Longrightarrow> (of_char (digitChar d) :: nat) = 48 + d"
proof -
  assume "d < 10"
  then consider "d = 0" | "d = 1" | "d = 2" | "d = 3" | "d = 4" | "d = 5" | "d = 6" | "d = 7"
    | "d = 8" | "d = 9"
    by atomize_elim arith
  then show ?thesis by cases (simp_all add: digitChar_def)
qed

text \<open>\<open>showNat\<close> writes the decimal numeral: digits only, of the right value, and no
  zero in front.\<close>

lemma showNat_value:
  "foldl (\<lambda>a c. 10 * a + ((of_char c :: nat) - 48)) 0 (showNat n) = n"
proof (induction n rule: showNat.induct)
  case (1 n)
  show ?case
  proof (cases "n < 10")
    case True
    then show ?thesis by (simp add: showNat_small digitChar_code)
  next
    case False
    have "n mod 10 < 10" by simp
    then show ?thesis using False 1 [OF False]
      by (simp add: showNat_big digitChar_code)
  qed
qed

lemma showNat_digits:
  "list_all (\<lambda>c. 48 \<le> (of_char c :: nat) \<and> (of_char c :: nat) \<le> 57) (showNat n)"
proof (induction n rule: showNat.induct)
  case (1 n)
  show ?case
  proof (cases "n < 10")
    case True
    then show ?thesis by (simp add: showNat_small digitChar_code)
  next
    case False
    have "n mod 10 < 10" by simp
    then have "(of_char (digitChar (n mod 10)) :: nat) = 48 + n mod 10" by (rule digitChar_code)
    then show ?thesis using False 1 [OF False] by (simp add: showNat_big)
  qed
qed

lemma showNat_nonempty: "showNat n \<noteq> []"
  by (cases "n < 10") (simp_all add: showNat_small showNat_big)

lemma showNat_canonical: "hd (showNat n) = CHR ''0'' \<Longrightarrow> n = 0"
proof (induction n rule: showNat.induct)
  case (1 n)
  show ?case
  proof (cases "n < 10")
    case True
    then have "(of_char (hd (showNat n)) :: nat) = 48 + n"
      by (simp add: showNat_small digitChar_code)
    then show ?thesis using 1(2) by simp
  next
    case False
    then have "hd (showNat n) = hd (showNat (n div 10))"
      by (simp add: showNat_big showNat_nonempty)
    then have "n div 10 = 0" using 1(1) [OF False] 1(2) by simp
    then show ?thesis using False by simp
  qed
qed

lemma showInt_goRem:
  "showInt (goRem u 1000000) =
     (if 0 \<le> u then showNat (nat (u mod 1000000))
      else if (- u) mod 1000000 = 0 then showNat 0
      else CHR ''-'' # showNat (nat ((- u) mod 1000000)))"
proof (cases "0 \<le> u")
  case True
  then have "goRem u 1000000 = u mod 1000000" by (simp add: goRem_nonneg)
  moreover have "0 \<le> u mod 1000000" by simp
  ultimately show ?thesis using True by (simp add: showInt_def)
next
  case False
  then have g: "goRem u 1000000 = - ((- u) mod 1000000)" by (simp add: goRem_def)
  have nn: "0 \<le> (- u) mod 1000000" by simp
  show ?thesis
  proof (cases "(- u) mod 1000000 = 0")
    case True
    then show ?thesis using False g by (simp add: showInt_def)
  next
    case nz: False
    then have "0 < (- u) mod 1000000" using nn by linarith
    then show ?thesis using False g nz by (simp add: showInt_def)
  qed
qed

text \<open>
  C7. For every path, method, profile type and instant (the year on four digits)
  the filename is the profile type, \<open>/profile_\<close>, the sanitized path, the method,
  the local time in the layout \<open>YYYYMMDD_HHMMSS\<close> and the nanoseconds of the clock
  modulo \<open>10^6\<close> as a decimal numeral, joined by underscores, and \<open>.pprof\<close>. The
  sanitized path is the path read rune by rune as \<open>range\<close> does: in a validly
  encoded rune each of \<open>/ : * ? < > |\<close>, the double quote and the backslash is
  replaced by an underscore and every other character is kept; a byte that starts no
  valid UTF-8 encoding becomes U+FFFD, the bytes \<open>EF BF BD\<close>. So for a path that is
  valid UTF-8, and for an ASCII path in particular, the nine characters are replaced
  and all others are unchanged. The filename is a function of these inputs: equal
  inputs give equal filenames.
\<close>

theorem generateFilename_format:
  assumes "year stamp < 10000" and "month stamp < 100" and "day stamp < 100"
    and "hour stamp < 100" and "minute stamp < 100" and "second stamp < 100"
  shows "generateFilename stamp unixNano path method profileType =
       profileType @ ''/profile_'' @ sanitizePath path @ ''_'' @ method @ ''_''
       @ map (\<lambda>d. ''0123456789'' ! d)
           [year stamp div 1000, year stamp div 100 mod 10, year stamp div 10 mod 10,
            year stamp mod 10, month stamp div 10, month stamp mod 10,
            day stamp div 10, day stamp mod 10]
       @ ''_''
       @ map (\<lambda>d. ''0123456789'' ! d)
           [hour stamp div 10, hour stamp mod 10, minute stamp div 10, minute stamp mod 10,
            second stamp div 10, second stamp mod 10]
       @ ''_'' @ showInt (goRem unixNano 1000000) @ ''.pprof''
    \<and> sanitizePath path =
        concat (map (\<lambda>(ok, bs).
                      if ok
                      then map (\<lambda>c. if c \<in> set [CHR ''/'', CHR '':'', CHR ''*'', CHR ''?'', CHR ''<'',
                                                 CHR ''>'', CHR ''|'', CHR 0x22, CHR 0x5C]
                                  then CHR ''_'' else c) bs
                      else [CHR 0xEF, CHR 0xBF, CHR 0xBD])
                (rangeString path))
    \<and> concat (map snd (rangeString path)) = path
    \<and> (list_all fst (rangeString path) \<longrightarrow>
         sanitizePath path =
           map (\<lambda>c. if c \<in> set [CHR ''/'', CHR '':'', CHR ''*'', CHR ''?'', CHR ''<'',
                                  CHR ''>'', CHR ''|'', CHR 0x22, CHR 0x5C]
                     then CHR ''_'' else c) path)
    \<and> ((\<forall>c \<in> set path. (of_char c :: nat) < 0x80) \<longrightarrow> list_all fst (rangeString path))
    \<and> showInt (goRem unixNano 1000000) =
        (if 0 \<le> unixNano then showNat (nat (unixNano mod 1000000))
         else if (- unixNano) mod 1000000 = 0 then showNat 0
         else CHR ''-'' # showNat (nat ((- unixNano) mod 1000000)))
    \<and> foldl (\<lambda>a c. 10 * a + ((of_char c :: nat) - 48)) 0 (showNat n) = n
    \<and> list_all (\<lambda>c. 48 \<le> (of_char c :: nat) \<and> (of_char c :: nat) \<le> 57) (showNat n)
    \<and> showNat n \<noteq> []
    \<and> (hd (showNat n) = CHR ''0'' \<longrightarrow> n = 0)"
proof -
  have name: "generateFilename stamp unixNano path method profileType =
       profileType @ ''/profile_'' @ sanitizePath path @ ''_'' @ method @ ''_''
       @ map (\<lambda>d. ''0123456789'' ! d)
           [year stamp div 1000, year stamp div 100 mod 10, year stamp div 10 mod 10,
            year stamp mod 10, month stamp div 10, month stamp mod 10,
            day stamp div 10, day stamp mod 10]
       @ ''_''
       @ map (\<lambda>d. ''0123456789'' ! d)
           [hour stamp div 10, hour stamp mod 10, minute stamp div 10, minute stamp mod 10,
            second stamp div 10, second stamp mod 10]
       @ ''_'' @ showInt (goRem unixNano 1000000) @ ''.pprof''"
    unfolding generateFilename_def Let_def formatStamp_digits [OF assms] by simp
  have runes: "sanitizePath path =
        concat (map (\<lambda>(ok, bs).
                      if ok
                      then map (\<lambda>c. if c \<in> set [CHR ''/'', CHR '':'', CHR ''*'', CHR ''?'', CHR ''<'',
                                                 CHR ''>'', CHR ''|'', CHR 0x22, CHR 0x5C]
                                  then CHR ''_'' else c) bs
                      else [CHR 0xEF, CHR 0xBF, CHR 0xBD])
                (rangeString path))"
    using sanitizePath_runes [of path] by (simp only: runeError_def)
  have valid: "list_all fst (rangeString path) \<longrightarrow>
         sanitizePath path =
           map (\<lambda>c. if c \<in> set [CHR ''/'', CHR '':'', CHR ''*'', CHR ''?'', CHR ''<'',
                                  CHR ''>'', CHR ''|'', CHR 0x22, CHR 0x5C]
                     then CHR ''_'' else c) path"
    using sanitizePath_valid by blast
  have ascii: "(\<forall>c \<in> set path. (of_char c :: nat) < 0x80) \<longrightarrow> list_all fst (rangeString path)"
    using ascii_valid by blast
  have canon: "hd (showNat n) = CHR ''0'' \<longrightarrow> n = 0" using showNat_canonical by blast
  from name runes concat_rangeString [of path] valid ascii showInt_goRem [of unixNano]
    showNat_value [of n] showNat_digits [of n] showNat_nonempty [of n] canon
  show ?thesis by blast
qed

theorem generateFilename_format_witness:
  "generateFilename \<lparr>year = 2025, month = 3, day = 9, hour = 7, minute = 5, second = 0\<rparr>
        1741503900123456789 ''/a/:id'' ''GET'' ''cpu''
      = ''cpu/profile__a__id_GET_20250309_070500_456789.pprof''
   \<and> sanitizePath ''/a/:id'' = ''_a__id''
   \<and> list_all fst (rangeString ([CHR ''/'', CHR 0xC3, CHR 0xA9, CHR ''?'']))
   \<and> sanitizePath [CHR ''/'', CHR 0xC3, CHR 0xA9, CHR ''?''] = [CHR ''_'', CHR 0xC3, CHR 0xA9, CHR ''_'']"
proof -
  let ?t = "\<lparr>year = 2025, month = 3, day = 9, hour = 7, minute = 5, second = 0\<rparr>"
  have b: "year ?t < 10000" "month ?t < 100" "day ?t < 100" "hour ?t < 100" "minute ?t < 100"
    "second ?t < 100"
    by simp_all
  note inst = generateFilename_format [OF b, of 1741503900123456789 "''/a/:id''" "''GET''" "''cpu''"
      456789]
  note name0 = inst [THEN conjunct1]
  note valid0 = inst [THEN conjunct2, THEN conjunct2, THEN conjunct2, THEN conjunct1]
  note ascii0 = inst [THEN conjunct2, THEN conjunct2, THEN conjunct2, THEN conjunct2,
      THEN conjunct1]
  note nanos0 = inst [THEN conjunct2, THEN conjunct2, THEN conjunct2, THEN conjunct2,
      THEN conjunct2, THEN conjunct1]
  have ascii: "\<forall>c \<in> set ''/a/:id''. (of_char c :: nat) < 0x80" by simp
  have "list_all fst (rangeString ''/a/:id'')" using ascii0 ascii by (rule mp)
  with valid0 have "sanitizePath ''/a/:id'' =
           map (\<lambda>c. if c \<in> set [CHR ''/'', CHR '':'', CHR ''*'', CHR ''?'', CHR ''<'',
                                  CHR ''>'', CHR ''|'', CHR 0x22, CHR 0x5C]
                     then CHR ''_'' else c) ''/a/:id''"
    by (rule mp)
  then have san: "sanitizePath ''/a/:id'' = ''_a__id''" by simp
  have nanos: "showInt (goRem 1741503900123456789 1000000) = ''456789''"
    unfolding nanos0 by (simp add: showNat.simps digitChar_def)
  have name: "generateFilename ?t 1741503900123456789 ''/a/:id'' ''GET'' ''cpu''
      = ''cpu/profile__a__id_GET_20250309_070500_456789.pprof''"
    unfolding name0 san nanos by simp
  note inst2 = generateFilename_format [OF b, of 0 "[CHR ''/'', CHR 0xC3, CHR 0xA9, CHR ''?'']"
      "''GET''" "''cpu''" 0]
  note valid2 = inst2 [THEN conjunct2, THEN conjunct2, THEN conjunct2, THEN conjunct1]
  have valid: "list_all fst (rangeString ([CHR ''/'', CHR 0xC3, CHR 0xA9, CHR ''?'']))"
    by (simp add: rangeString.simps runeWidth_def leadByte_def isCont_def)
  with valid2 have "sanitizePath [CHR ''/'', CHR 0xC3, CHR 0xA9, CHR ''?''] =
           map (\<lambda>c. if c \<in> set [CHR ''/'', CHR '':'', CHR ''*'', CHR ''?'', CHR ''<'',
                                  CHR ''>'', CHR ''|'', CHR 0x22, CHR 0x5C]
                     then CHR ''_'' else c) [CHR ''/'', CHR 0xC3, CHR 0xA9, CHR ''?'']"
    by (rule mp)
  then have san2: "sanitizePath [CHR ''/'', CHR 0xC3, CHR 0xA9, CHR ''?'']
      = [CHR ''_'', CHR 0xC3, CHR 0xA9, CHR ''_'']"
    by simp
  from name san valid san2 show ?thesis by blast
qed

text \<open>
  A path with the byte \<open>FF\<close>, which starts no valid encoding: the filename holds the
  three bytes of U+FFFD in its place, so the byte is not left unchanged.
\<close>

theorem generateFilename_invalid_byte_counterexample:
  "generateFilename \<lparr>year = 2025, month = 3, day = 9, hour = 7, minute = 5, second = 0\<rparr>
        1741503900123456789 [CHR ''/'', CHR 0xFF] ''GET'' ''cpu''
      = ''cpu/profile__'' @ [CHR 0xEF, CHR 0xBF, CHR 0xBD] @ ''_GET_20250309_070500_456789.pprof''
   \<and> generateFilename \<lparr>year = 2025, month = 3, day = 9, hour = 7, minute = 5, second = 0\<rparr>
        1741503900123456789 [CHR ''/'', CHR 0xFF] ''GET'' ''cpu''
      \<noteq> ''cpu/profile__'' @ [CHR 0xFF] @ ''_GET_20250309_070500_456789.pprof''"
proof -
  have san: "sanitizePath [CHR ''/'', CHR 0xFF] = [CHR ''_'', CHR 0xEF, CHR 0xBF, CHR 0xBD]"
    by (simp add: sanitizePath_def rangeString.simps runeWidth_def leadByte_def replacements_def
          runeError_def)
  have "generateFilename \<lparr>year = 2025, month = 3, day = 9, hour = 7, minute = 5, second = 0\<rparr>
        1741503900123456789 [CHR ''/'', CHR 0xFF] ''GET'' ''cpu''
      = ''cpu/profile__'' @ [CHR 0xEF, CHR 0xBF, CHR 0xBD] @ ''_GET_20250309_070500_456789.pprof''"
    by (simp add: generateFilename_def san formatStamp_def zeroPad_def showInt_def showNat.simps
          digitChar_def goRem_def)
  then show ?thesis by simp
qed

section \<open>Replacing the task table\<close>

lemma buildTaskMap_map_of:
  "buildTaskMap newTasks taskMap = taskMap ++ map_of (rev (map (\<lambda>t. (Path t, t)) newTasks))"
proof (induction newTasks arbitrary: taskMap)
  case Nil
  then show ?case by simp
next
  case (Cons task newTasks)
  show ?case
    by (simp add: Cons.IH map_add_upd_left [symmetric] fun_eq_iff map_add_def split: option.splits)
qed

lemma dom_buildTaskMap: "dom (buildTaskMap newTasks taskMap) = dom taskMap \<union> Path ` set newTasks"
  by (induction newTasks arbitrary: taskMap) auto

lemma ran_buildTaskMap: "buildTaskMap newTasks taskMap k = Some t \<Longrightarrow> taskMap k = Some t \<or> (t \<in> set newTasks \<and> Path t = k)"
proof (induction newTasks arbitrary: taskMap)
  case Nil
  then show ?case by simp
next
  case (Cons a newTasks)
  from Cons.prems have "buildTaskMap newTasks (taskMap(Path a \<mapsto> a)) k = Some t" by simp
  from Cons.IH [OF this] show ?case
    by (cases "k = Path a") auto
qed

text \<open>The table that \<open>updateTasks\<close> installs holds every task under its own path, and a
  sweep keeps it so.\<close>

lemma updateTasks_keyed:
  "tasks (updateTasks now L m) k = Some t \<Longrightarrow> Path t = k"
  using ran_buildTaskMap [of L Map.empty k t] by (simp add: updateTasks_def Let_def)

lemma cleanExpiredTasks_keyed:
  assumes "\<And>k t. tasks m k = Some t \<Longrightarrow> Path t = k"
    and "tasks (cleanExpiredTasks now m) k = Some t"
  shows "Path t = k"
proof -
  from assms(2) have "tasks m k = Some t"
    by (simp add: cleanExpiredTasks_def split: option.splits if_splits)
  then show ?thesis by (rule assms(1))
qed

lemma findTask_in_table:
  "findTask pathMatch tbl order path method = Some task \<Longrightarrow> \<exists>k. tbl k = Some task"
  by (induction order) (auto split: option.splits if_splits)

lemma ShouldProfile_task_in_table:
  "fst (ShouldProfile pathMatch order now m path method) = Admitted task \<Longrightarrow> \<exists>k. tasks m k = Some task"
  by (auto simp: ShouldProfile_def acquire_def Let_def split: if_splits option.splits dest: findTask_in_table)

text \<open>
  C4. After \<open>updateTasks\<close> on a list \<open>L\<close>, the task table is the map from path to
  task built from \<open>L\<close>, the last task of a path winning; the request counter has no
  key outside the paths of \<open>L\<close> and keeps its value on those paths; \<open>LastUpdate\<close>
  is the clock; and \<open>ShouldProfile\<close> behaves as if only the tasks of \<open>L\<close> existed:
  its outcome does not depend on the table that was there before, and a task it
  admits is a task of \<open>L\<close>.
\<close>

theorem updateTasks_installs:
  "tasks (updateTasks now L m) = map_of (rev (map (\<lambda>t. (Path t, t)) L))
   \<and> dom (requestCount (updateTasks now L m)) \<subseteq> Path ` set L
   \<and> (\<forall>path. path \<in> Path ` set L \<longrightarrow> requestCount (updateTasks now L m) path = requestCount m path)
   \<and> LastUpdate (stats (updateTasks now L m)) = now
   \<and> ShouldProfile pathMatch order now' (updateTasks now L m) path method
       = ShouldProfile pathMatch order now' (updateTasks now L (m\<lparr>tasks := old\<rparr>)) path method
   \<and> (\<forall>task. fst (ShouldProfile pathMatch order now' (updateTasks now L m) path method) = Admitted task
         \<longrightarrow> task \<in> set L)"
proof -
  have t: "tasks (updateTasks now L m) = map_of (rev (map (\<lambda>t. (Path t, t)) L))"
    by (simp add: updateTasks_def buildTaskMap_map_of Let_def)
  have d: "dom (requestCount (updateTasks now L m)) \<subseteq> Path ` set L"
  proof
    fix p assume "p \<in> dom (requestCount (updateTasks now L m))"
    then have "buildTaskMap L Map.empty p \<noteq> None"
      by (auto simp: updateTasks_def pruneCounts_def Let_def split: option.splits)
    then have "p \<in> dom (buildTaskMap L Map.empty)" by auto
    then show "p \<in> Path ` set L" by (simp add: dom_buildTaskMap)
  qed
  have k: "\<forall>path. path \<in> Path ` set L \<longrightarrow> requestCount (updateTasks now L m) path = requestCount m path"
  proof (intro allI impI)
    fix p assume "p \<in> Path ` set L"
    then have "p \<in> dom (buildTaskMap L Map.empty)" by (simp add: dom_buildTaskMap)
    then show "requestCount (updateTasks now L m) p = requestCount m p"
      by (auto simp: updateTasks_def pruneCounts_def Let_def)
  qed
  have l: "LastUpdate (stats (updateTasks now L m)) = now"
    by (simp add: updateTasks_def Let_def)
  have e: "updateTasks now L (m\<lparr>tasks := old\<rparr>) = updateTasks now L m"
    by (simp add: updateTasks_def Let_def)
  have a: "\<forall>task. fst (ShouldProfile pathMatch order now' (updateTasks now L m) path method) = Admitted task
         \<longrightarrow> task \<in> set L"
  proof (intro allI impI)
    fix task
    assume "fst (ShouldProfile pathMatch order now' (updateTasks now L m) path method) = Admitted task"
    then obtain k where "tasks (updateTasks now L m) k = Some task"
      using ShouldProfile_task_in_table by blast
    then have "buildTaskMap L Map.empty k = Some task" by (simp add: updateTasks_def Let_def)
    then show "task \<in> set L" using ran_buildTaskMap by fastforce
  qed
  from t d k l e a show ?thesis by simp
qed


theorem updateTasks_installs_witness:
  "tasks (updateTasks 7 [taskA\<lparr>SampleRate := 3\<rparr>, taskA]
            ((NewManager oneAtATime 0)\<lparr>tasks := [''/b'' \<mapsto> taskB],
                requestCount := [''/a'' \<mapsto> 1, ''/b'' \<mapsto> 2]\<rparr>)) = [''/a'' \<mapsto> taskA]
   \<and> requestCount (updateTasks 7 [taskA\<lparr>SampleRate := 3\<rparr>, taskA]
            ((NewManager oneAtATime 0)\<lparr>tasks := [''/b'' \<mapsto> taskB],
                requestCount := [''/a'' \<mapsto> 1, ''/b'' \<mapsto> 2]\<rparr>)) ''/b'' = None
   \<and> requestCount (updateTasks 7 [taskA\<lparr>SampleRate := 3\<rparr>, taskA]
            ((NewManager oneAtATime 0)\<lparr>tasks := [''/b'' \<mapsto> taskB],
                requestCount := [''/a'' \<mapsto> 1, ''/b'' \<mapsto> 2]\<rparr>)) ''/a'' = Some 1
   \<and> fst (ShouldProfile exactMatch [''/a''] 8 (updateTasks 7 [taskA\<lparr>SampleRate := 3\<rparr>, taskA]
            ((NewManager oneAtATime 0)\<lparr>tasks := [''/b'' \<mapsto> taskB],
                requestCount := [''/a'' \<mapsto> 1, ''/b'' \<mapsto> 2]\<rparr>)) ''/a'' ''GET'') = Admitted taskA
   \<and> fst (ShouldProfile exactMatch [''/b''] 8 (updateTasks 7 [taskA\<lparr>SampleRate := 3\<rparr>, taskA]
            ((NewManager oneAtATime 0)\<lparr>tasks := [''/b'' \<mapsto> taskB],
                requestCount := [''/a'' \<mapsto> 1, ''/b'' \<mapsto> 2]\<rparr>)) ''/b'' ''GET'') = NoMatch
   \<and> taskA \<in> set [taskA\<lparr>SampleRate := 3\<rparr>, taskA]"
proof -
  let ?L = "[taskA\<lparr>SampleRate := 3\<rparr>, taskA]"
  let ?m = "(NewManager oneAtATime 0)\<lparr>tasks := [''/b'' \<mapsto> taskB],
                requestCount := [''/a'' \<mapsto> 1, ''/b'' \<mapsto> 2]\<rparr>"
  note inst = updateTasks_installs [of 7 ?L ?m exactMatch "[''/a'']" 8 "''/a''" "''GET''" Map.empty]
  have t: "tasks (updateTasks 7 ?L ?m) = [''/a'' \<mapsto> taskA]"
    using inst by (simp add: taskA_def fun_eq_iff)
  have a: "fst (ShouldProfile exactMatch [''/a''] 8 (updateTasks 7 ?L ?m) ''/a'' ''GET'') = Admitted taskA"
    by (simp add: ShouldProfile_def acquire_def NewManager_def oneAtATime_def updateTasks_def
         exactMatch_def ShouldMatchMethod_def foldEqByte_def taskA_def Let_def)
  have b: "fst (ShouldProfile exactMatch [''/b''] 8 (updateTasks 7 ?L ?m) ''/b'' ''GET'') = NoMatch"
    by (simp add: ShouldProfile_def NewManager_def oneAtATime_def updateTasks_def Let_def taskA_def)
  have c: "requestCount (updateTasks 7 ?L ?m) ''/b'' = None"
    using inst by (auto simp: taskA_def)
  have d: "requestCount (updateTasks 7 ?L ?m) ''/a'' = Some 1"
    using inst by (simp add: taskA_def)
  from inst a have "taskA \<in> set ?L" by blast
  with t a b c d show ?thesis by blast
qed


section \<open>Expiry\<close>

lemma ShouldProfile_after_expiry:
  assumes "Enabled (options m)"
    and "findTask pathMatch (tasks m) order path method = Some task"
    and "ExpiresAt task < now"
  shows "ShouldProfile pathMatch order now m path method = (Expired task, m)"
  using assms by (simp add: ShouldProfile_def)

lemma ShouldProfile_at_expiry:
  assumes "Enabled (options m)"
    and "findTask pathMatch (tasks m) order path method = Some task"
    and "now = ExpiresAt task"
    and "SampleRate task \<le> 1"
    and "limiter m < MaxConcurrent (options m)"
  shows "fst (ShouldProfile pathMatch order now m path method) = Admitted task"
  using assms by (simp add: ShouldProfile_def acquire_def)

text \<open>
  C5. A matching task is meant to be refused from the instant of its expiry on,
  that instant included. \<open>ShouldProfile\<close> tests \<open>time.Now().After(ExpiresAt)\<close>:
  a request to \<open>/a\<close> at instant 100, the expiry of \<open>taskA\<close>, is admitted; at
  instant 101 it is refused.
\<close>

theorem ShouldProfile_admits_at_expiry_instant:
  "ExpiresAt taskA = 100
   \<and> fst (ShouldProfile exactMatch [''/a''] 100 (updateTasks 0 [taskA] (NewManager oneAtATime 0))
            ''/a'' ''GET'') = Admitted taskA
   \<and> fst (ShouldProfile exactMatch [''/a''] 101 (updateTasks 0 [taskA] (NewManager oneAtATime 0))
            ''/a'' ''GET'') = Expired taskA"
  by (simp add: ShouldProfile_def acquire_def NewManager_def oneAtATime_def updateTasks_def
       exactMatch_def ShouldMatchMethod_def foldEqByte_def taskA_def Let_def)


section \<open>Sampling\<close>






lemma acquire_cases:
  assumes "acquire task m = (v, m')"
  shows "isSampled task v \<and> requestCount m' = requestCount m"
  using assms by (cases "limiter m < MaxConcurrent (options m)") (auto simp: acquire_def)

text \<open>The outcome of a call is one of six; the last three keep the task that was found.\<close>

lemma ShouldProfile_cases:
  assumes "ShouldProfile pathMatch order now m path method = (v, m')"
  shows "(v = Disabled \<and> m' = m)
    \<or> (v = NoMatch \<and> m' = m)
    \<or> (\<exists>task. findTask pathMatch (tasks m) order path method = Some task
          \<and> v = Expired task \<and> m' = m)
    \<or> (\<exists>task. findTask pathMatch (tasks m) order path method = Some task
          \<and> \<not> ExpiresAt task < now \<and> 1 < SampleRate task
          \<and> requestCount m' = (requestCount m)
                (Path task \<mapsto> wrap64 (readCount (requestCount m) (Path task) + 1))
          \<and> (if goRem (wrap64 (readCount (requestCount m) (Path task) + 1)) (SampleRate task) \<noteq> 0
              then v = SampledOut task else isSampled task v))
    \<or> (\<exists>task. findTask pathMatch (tasks m) order path method = Some task
          \<and> \<not> ExpiresAt task < now \<and> \<not> 1 < SampleRate task
          \<and> requestCount m' = requestCount m
          \<and> isSampled task v)"
proof (cases "Enabled (options m)")
  case False
  then show ?thesis using assms by (simp add: ShouldProfile_def)
next
  case en: True
  show ?thesis
  proof (cases "findTask pathMatch (tasks m) order path method")
    case None
    then show ?thesis using assms en by (simp add: ShouldProfile_def)
  next
    case (Some task)
    show ?thesis
    proof (cases "ExpiresAt task < now")
      case True
      then show ?thesis using assms en Some by (simp add: ShouldProfile_def)
    next
      case ne: False
      show ?thesis
      proof (cases "1 < SampleRate task")
        case False
        then have "acquire task m = (v, m')" using assms en Some ne by (simp add: ShouldProfile_def)
        from acquire_cases [OF this] show ?thesis using Some ne False by simp
      next
        case sr: True
        let ?c = "wrap64 (readCount (requestCount m) (Path task) + 1)"
        let ?m1 = "m\<lparr>requestCount := (requestCount m)(Path task \<mapsto> ?c)\<rparr>"
        show ?thesis
        proof (cases "goRem ?c (SampleRate task) \<noteq> 0")
          case True
          then have "v = SampledOut task" and "m' = ?m1"
            using assms en Some ne sr by (simp_all add: ShouldProfile_def Let_def)
          then show ?thesis using Some ne sr True by simp
        next
          case False
          then have "acquire task ?m1 = (v, m')"
            using assms en Some ne sr by (simp add: ShouldProfile_def Let_def)
          from acquire_cases [OF this] show ?thesis using Some ne sr False by simp
        qed
      qed
    qed
  qed
qed


lemma calls_Cons:
  assumes "calls pathMatch m (c # cs) = (vs, m')"
  obtains v m1 vs1 where
    "ShouldProfile pathMatch (c_order c) (c_now c) (m\<lparr>limiter := c_held c\<rparr>) (c_path c) (c_method c) = (v, m1)"
    and "calls pathMatch m1 cs = (vs1, m')" and "vs = v # vs1"
proof -
  obtain v m1 where sp: "ShouldProfile pathMatch (c_order c) (c_now c) (m\<lparr>limiter := c_held c\<rparr>) (c_path c) (c_method c) = (v, m1)"
    by (cases "ShouldProfile pathMatch (c_order c) (c_now c) (m\<lparr>limiter := c_held c\<rparr>) (c_path c) (c_method c)")
  obtain vs1 m2 where rest: "calls pathMatch m1 cs = (vs1, m2)"
    by (cases "calls pathMatch m1 cs")
  from assms sp rest have "vs = v # vs1" and "m' = m2" by simp_all
  with sp rest that show thesis by blast
qed

lemma length_calls: "calls pathMatch m cs = (vs, m') \<Longrightarrow> length vs = length cs"
proof (induction cs arbitrary: m vs)
  case Nil
  then show ?case by simp
next
  case (Cons c cs)
  from Cons.prems obtain v m1 vs1 where "calls pathMatch m1 cs = (vs1, m')" and "vs = v # vs1"
    by (rule calls_Cons)
  with Cons.IH show ?case by simp
qed



text \<open>A call that is refused before the sampling leaves the manager as it was.\<close>

lemma ShouldProfile_refused_early:
  assumes "ShouldProfile pathMatch order now m path method = (v, m')"
    and "v = Disabled \<or> v = NoMatch \<or> v = Expired task"
  shows "m' = m"
  using ShouldProfile_cases [OF assms(1)] assms(2)
  by (elim disjE exE conjE) (auto split: if_splits)

section \<open>The concurrency limit\<close>

text \<open>
  \<open>ShouldProfile\<close> changes the request counter at most, and then either refuses or
  goes to the limiter.
\<close>

lemma ShouldProfile_shape:
  "\<exists>rc. (\<not> admit (fst (ShouldProfile pathMatch order now m path method))
           \<and> snd (ShouldProfile pathMatch order now m path method) = m\<lparr>requestCount := rc\<rparr>)
        \<or> (\<exists>task. ShouldProfile pathMatch order now m path method
                     = acquire task (m\<lparr>requestCount := rc\<rparr>))"
proof (cases "Enabled (options m)")
  case False
  then have "ShouldProfile pathMatch order now m path method = (Disabled, m\<lparr>requestCount := requestCount m\<rparr>)"
    by (simp add: ShouldProfile_def)
  then show ?thesis by (intro exI [of _ "requestCount m"]) simp
next
  case en: True
  show ?thesis
  proof (cases "findTask pathMatch (tasks m) order path method")
    case None
    then have "ShouldProfile pathMatch order now m path method = (NoMatch, m\<lparr>requestCount := requestCount m\<rparr>)"
      using en by (simp add: ShouldProfile_def)
    then show ?thesis by (intro exI [of _ "requestCount m"]) simp
  next
    case (Some task)
    show ?thesis
    proof (cases "ExpiresAt task < now")
      case True
      then have "ShouldProfile pathMatch order now m path method
                   = (Expired task, m\<lparr>requestCount := requestCount m\<rparr>)"
        using en Some by (simp add: ShouldProfile_def)
      then show ?thesis by (intro exI [of _ "requestCount m"]) simp
    next
      case ne: False
      show ?thesis
      proof (cases "1 < SampleRate task")
        case False
        then have "ShouldProfile pathMatch order now m path method
                     = acquire task (m\<lparr>requestCount := requestCount m\<rparr>)"
          using en Some ne by (simp add: ShouldProfile_def)
        then show ?thesis by blast
      next
        case sr: True
        let ?c = "wrap64 (readCount (requestCount m) (Path task) + 1)"
        let ?rc = "(requestCount m)(Path task \<mapsto> ?c)"
        show ?thesis
        proof (cases "goRem ?c (SampleRate task) \<noteq> 0")
          case True
          then have "ShouldProfile pathMatch order now m path method
                       = (SampledOut task, m\<lparr>requestCount := ?rc\<rparr>)"
            using en Some ne sr by (simp add: ShouldProfile_def Let_def)
          then show ?thesis by (intro exI [of _ ?rc]) simp
        next
          case False
          then have "ShouldProfile pathMatch order now m path method
                       = acquire task (m\<lparr>requestCount := ?rc\<rparr>)"
            using en Some ne sr by (simp add: ShouldProfile_def Let_def)
          then show ?thesis by blast
        qed
      qed
    qed
  qed
qed

lemma ShouldProfile_effect:
  assumes "ShouldProfile pathMatch order now m path method = (v, m')"
  shows "options m' = options m"
    and "ActiveProfiles (stats m') = ActiveProfiles (stats m)"
    and "limiter m' = (if admit v then Suc (limiter m) else limiter m)"
    and "admit v \<Longrightarrow> limiter m < MaxConcurrent (options m)"
    and "MaxConcurrent (options m) \<le> limiter m \<Longrightarrow> \<not> admit v"
proof -
  from ShouldProfile_shape [of pathMatch order now m path "method"] obtain rc where
    sh: "(\<not> admit v \<and> m' = m\<lparr>requestCount := rc\<rparr>)
         \<or> (\<exists>task. (v, m') = acquire task (m\<lparr>requestCount := rc\<rparr>))"
    unfolding assms by auto
  have all: "options m' = options m \<and> ActiveProfiles (stats m') = ActiveProfiles (stats m)
      \<and> limiter m' = (if admit v then Suc (limiter m) else limiter m)
      \<and> (admit v \<longrightarrow> limiter m < MaxConcurrent (options m))"
    using sh
  proof
    assume "\<not> admit v \<and> m' = m\<lparr>requestCount := rc\<rparr>"
    then show ?thesis by simp
  next
    assume "\<exists>task. (v, m') = acquire task (m\<lparr>requestCount := rc\<rparr>)"
    then obtain task where a: "(v, m') = acquire task (m\<lparr>requestCount := rc\<rparr>)" by blast
    show ?thesis
    proof (cases "limiter m < MaxConcurrent (options m)")
      case True
      then show ?thesis using a by (simp add: acquire_def)
    next
      case False
      then show ?thesis using a by (simp add: acquire_def)
    qed
  qed
  from all show "options m' = options m" by blast
  from all show "ActiveProfiles (stats m') = ActiveProfiles (stats m)" by blast
  from all show "limiter m' = (if admit v then Suc (limiter m) else limiter m)" by blast
  from all show "admit v \<Longrightarrow> limiter m < MaxConcurrent (options m)" by blast
  from all show "MaxConcurrent (options m) \<le> limiter m \<Longrightarrow> \<not> admit v" by auto
qed

lemma releaseLimiter_effect:
  "limiter (releaseLimiter m) = limiter m - 1"
  "options (releaseLimiter m) = options m"
  "stats (releaseLimiter m) = stats m"
  "saved (releaseLimiter m) = saved m"
  by (simp_all add: releaseLimiter_def)

lemma countFailed_effect:
  "limiter (countFailed m) = limiter m"
  "options (countFailed m) = options m"
  "ActiveProfiles (stats (countFailed m)) = ActiveProfiles (stats m)"
  by (simp_all add: countFailed_def)

text \<open>
  \<open>StartProfiling\<close> either fails and gives the permit back, or succeeds, keeps the
  permit and counts one more active profile.
\<close>

lemma StartProfiling_effect:
  assumes "StartProfiling cpuStart now m path task = (r, m')"
  shows "options m' = options m"
    and "r = Inl err \<Longrightarrow> limiter m' = limiter m - 1
                       \<and> ActiveProfiles (stats m') = ActiveProfiles (stats m)"
    and "r = Inr session \<Longrightarrow> limiter m' = limiter m
                       \<and> ActiveProfiles (stats m') = wrap64 (ActiveProfiles (stats m) + 1)"
proof -
  have all: "options m' = options m
    \<and> (case r of
          Inl e \<Rightarrow> limiter m' = limiter m - 1 \<and> ActiveProfiles (stats m') = ActiveProfiles (stats m)
        | Inr s \<Rightarrow> limiter m' = limiter m
                  \<and> ActiveProfiles (stats m') = wrap64 (ActiveProfiles (stats m) + 1))"
  proof (cases "profilers m (ProfileType task)")
    case None
    with assms have "r = Inl (''profiler type '' @ ProfileType task @ '' not found'')"
      and "m' = releaseLimiter m"
      by (simp_all add: StartProfiling_def)
    then show ?thesis by (simp add: releaseLimiter_effect)
  next
    case (Some profiler)
    show ?thesis
    proof (cases "startSession profiler cpuStart now")
      case (Inl e)
      with assms Some have "r = Inl e" and "m' = countFailed (releaseLimiter m)"
        by (simp_all add: StartProfiling_def)
      then show ?thesis by (simp add: releaseLimiter_effect countFailed_effect)
    next
      case (Inr s)
      with assms Some have "r = Inr s"
        and "m' = m\<lparr>stats := (stats m)\<lparr>ActiveProfiles := wrap64 (ActiveProfiles (stats m) + 1),
                                      ProfiledCount := wrap64 (ProfiledCount (stats m) + 1)\<rparr>\<rparr>"
        by (simp_all add: StartProfiling_def)
      then show ?thesis by simp
    qed
  qed
  from all show "options m' = options m" by blast
  from all show "r = Inl err \<Longrightarrow> limiter m' = limiter m - 1
                       \<and> ActiveProfiles (stats m') = ActiveProfiles (stats m)" by simp
  from all show "r = Inr session \<Longrightarrow> limiter m' = limiter m
                       \<and> ActiveProfiles (stats m') = wrap64 (ActiveProfiles (stats m) + 1)" by simp
qed

text \<open>
  \<open>StopProfiling\<close> gives the permit back and counts one active profile less, on
  each of its four ways out.
\<close>

lemma StopProfiling_effect:
  "options (snd (StopProfiling rt now stamp unixNano saveErr m path method task session)) = options m
   \<and> limiter (snd (StopProfiling rt now stamp unixNano saveErr m path method task session))
       = limiter m - 1
   \<and> ActiveProfiles (stats (snd (StopProfiling rt now stamp unixNano saveErr m path method task session)))
       = wrap64 (ActiveProfiles (stats m) - 1)"
proof -
  obtain data err where st: "fst (Stop rt session) = (data, err)"
    by (cases "fst (Stop rt session)")
  show ?thesis
  proof (cases err)
    case (Some e)
    then show ?thesis
      using st by (simp add: StopProfiling_def Let_def releaseLimiter_effect countFailed_effect)
  next
    case None
    show ?thesis
    proof (cases "data = []")
      case True
      then show ?thesis
        using st None by (simp add: StopProfiling_def Let_def releaseLimiter_effect)
    next
      case False
      then show ?thesis
        using st None
        by (cases saveErr)
           (simp_all add: StopProfiling_def Let_def releaseLimiter_effect countFailed_effect)
    qed
  qed
qed

lemma length_removeAt: "i < length xs \<Longrightarrow> length (removeAt i xs) = length xs - 1"
  by (simp add: removeAt_def)

lemma wrap64_small: "0 \<le> x \<Longrightarrow> x < 2 ^ 63 \<Longrightarrow> wrap64 x = x"
  by (simp add: wrap64_def)

lemma accounted_boot: "accounted opts (boot opts now)"
  by (simp add: accounted_def boot_def NewManager_def)

lemma accounted_step:
  assumes inv: "accounted opts s"
    and cap: "MaxConcurrent opts < 2 ^ 63"
    and st: "step pathMatch s e = Some s'"
  shows "accounted opts s'"
proof (cases e)
  case (Request path meth now order)
  obtain v m' where sp: "ShouldProfile pathMatch order now (mgr s) path meth = (v, m')"
    by (cases "ShouldProfile pathMatch order now (mgr s) path meth")
  note eff = ShouldProfile_effect [OF sp]
  show ?thesis
  proof (cases "admit v")
    case True
    then obtain task where v: "v = Admitted task" by (cases v) auto
    have s': "s' = s\<lparr>mgr := m', admitted := admitted s @ [(path, meth, task)]\<rparr>"
      using st Request sp v by simp
    have "limiter (mgr s) < MaxConcurrent opts" using eff(4) True inv by (simp add: accounted_def)
    then show ?thesis
      using inv eff(1,2,3) True by (simp add: accounted_def s')
  next
    case False
    have s': "s' = s\<lparr>mgr := m'\<rparr>"
      using st Request sp False by (cases v) auto
    show ?thesis
      using inv eff(1,2,3) False by (simp add: accounted_def s')
  qed
next
  case (Start i cpuStart now)
  have i: "i < length (admitted s)" using st Start by (simp split: if_splits)
  obtain path meth task where a: "admitted s ! i = (path, meth, task)"
    by (cases "admitted s ! i")
  obtain r m' where sp: "StartProfiling cpuStart now (mgr s) path task = (r, m')"
    by (cases "StartProfiling cpuStart now (mgr s) path task")
  note eff = StartProfiling_effect [OF sp]
  have "limiter (mgr s) = length (admitted s) + length (sessions s)"
    using inv by (simp add: accounted_def)
  then have pos: "0 < limiter (mgr s)" using i by linarith
  show ?thesis
  proof (cases r)
    case (Inl err)
    have s': "s' = s\<lparr>mgr := m', admitted := removeAt i (admitted s)\<rparr>"
      using st Start i a sp Inl by simp
    show ?thesis
      using inv eff(1) eff(2) [OF Inl] i pos
      by (auto simp: accounted_def s' length_removeAt)
  next
    case (Inr session)
    have s': "s' = s\<lparr>mgr := m', admitted := removeAt i (admitted s),
                     sessions := sessions s @ [(path, meth, task, session)]\<rparr>"
      using st Start i a sp Inr by simp
    have lt: "length (sessions s) < MaxConcurrent opts"
      using inv i by (simp add: accounted_def)
    have "wrap64 (int (length (sessions s)) + 1) = int (length (sessions s)) + 1"
      using lt cap by (intro wrap64_small) simp_all
    then show ?thesis
      using inv eff(1) eff(3) [OF Inr] i
      by (auto simp: accounted_def s' length_removeAt)
  qed
next
  case (TimerStop i rt)
  have i: "i < length (sessions s)" using st TimerStop by (simp split: if_splits)
  obtain path meth task session where a: "sessions s ! i = (path, meth, task, session)"
    by (cases "sessions s ! i")
  have s': "s' = s\<lparr>sessions := (sessions s)[i := (path, meth, task, snd (Stop rt session))]\<rparr>"
    using st TimerStop i a by simp
  show ?thesis using inv by (simp add: accounted_def s')
next
  case (Finish i rt now stamp unixNano saveErr)
  have i: "i < length (sessions s)" using st Finish by (simp split: if_splits)
  obtain path meth task session where a: "sessions s ! i = (path, meth, task, session)"
    by (cases "sessions s ! i")
  have s': "s' = s\<lparr>mgr := snd (StopProfiling rt now stamp unixNano saveErr (mgr s) path meth
                                  task session),
                   sessions := removeAt i (sessions s)\<rparr>"
    using st Finish i a by simp
  note eff = StopProfiling_effect [of rt now stamp unixNano saveErr "mgr s" path meth task session]
  have n: "length (sessions s) \<le> MaxConcurrent opts" using inv by (simp add: accounted_def)
  have "wrap64 (int (length (sessions s)) - 1) = int (length (sessions s)) - 1"
  proof (rule wrap64_small)
    show "0 \<le> int (length (sessions s)) - 1" using i by linarith
    show "int (length (sessions s)) - 1 < 2 ^ 63" using n cap by simp
  qed
  then show ?thesis
    using inv eff i by (auto simp: accounted_def s' length_removeAt)
next
  case (Update now newTasks)
  then have s': "s' = s\<lparr>mgr := updateTasks now newTasks (mgr s)\<rparr>" using st by simp
  show ?thesis using inv by (simp add: accounted_def s' updateTasks_def Let_def)
next
  case (Sweep now)
  then have s': "s' = s\<lparr>mgr := cleanExpiredTasks now (mgr s)\<rparr>" using st by simp
  show ?thesis using inv by (simp add: accounted_def s' cleanExpiredTasks_def)
qed

lemma accounted_run:
  assumes "accounted opts s" and "MaxConcurrent opts < 2 ^ 63"
    and "run pathMatch s evs = Some s'"
  shows "accounted opts s'"
  using assms(1,3)
proof (induction evs arbitrary: s)
  case Nil
  then show ?case by simp
next
  case (Cons e evs)
  from Cons.prems(2) obtain s1 where s1: "step pathMatch s e = Some s1"
    and r: "run pathMatch s1 evs = Some s'"
    by (cases "step pathMatch s e") simp_all
  have "accounted opts s1" using Cons.prems(1) assms(2) s1 by (rule accounted_step)
  then show ?case using r by (rule Cons.IH)
qed

text \<open>
  C3. In every state that the manager reaches from its construction through calls of
  \<open>ShouldProfile\<close>, \<open>StartProfiling\<close> on admitted requests and \<open>StopProfiling\<close> on
  started sessions, in any interleaving and with configuration updates and sweeps
  in between, \<open>ActiveProfiles\<close> is the number of open sessions and at most
  \<open>MaxConcurrent\<close>: every admitted request holds one permit of the limiter from its
  admission on, before \<open>StartProfiling\<close> counts it as active. With no permit free
  \<open>ShouldProfile\<close> returns without admitting; an admission takes one permit; and
  \<open>StopProfiling\<close> gives one permit back whatever its outcome.
\<close>

theorem ActiveProfiles_within_MaxConcurrent:
  assumes "MaxConcurrent opts < 2 ^ 63"
    and "run pathMatch (boot opts now0) evs = Some s"
  shows "ActiveProfiles (stats (mgr s)) \<le> int (MaxConcurrent opts)
    \<and> ActiveProfiles (stats (mgr s)) = int (length (sessions s))
    \<and> limiter (mgr s) = length (admitted s) + length (sessions s)
    \<and> limiter (mgr s) \<le> MaxConcurrent opts
    \<and> (MaxConcurrent (options m) \<le> limiter m
         \<longrightarrow> \<not> admit (fst (ShouldProfile pathMatch order now m path meth)))
    \<and> (admit (fst (ShouldProfile pathMatch order now m path meth))
         \<longrightarrow> limiter (snd (ShouldProfile pathMatch order now m path meth)) = Suc (limiter m))
    \<and> limiter (snd (StopProfiling rt now stamp unixNano saveErr m path meth task session))
        = limiter m - 1"
proof -
  have "accounted opts s"
    using accounted_boot assms by (rule accounted_run)
  then have inv: "ActiveProfiles (stats (mgr s)) = int (length (sessions s))"
    "limiter (mgr s) = length (admitted s) + length (sessions s)"
    "limiter (mgr s) \<le> MaxConcurrent opts"
    by (simp_all add: accounted_def)
  then have le: "ActiveProfiles (stats (mgr s)) \<le> int (MaxConcurrent opts)" by linarith
  obtain v m' where sp: "ShouldProfile pathMatch order now m path meth = (v, m')"
    by (cases "ShouldProfile pathMatch order now m path meth")
  note eff = ShouldProfile_effect [OF sp]
  have a: "MaxConcurrent (options m) \<le> limiter m
         \<longrightarrow> \<not> admit (fst (ShouldProfile pathMatch order now m path meth))"
    using eff(5) by (simp add: sp)
  have b: "admit (fst (ShouldProfile pathMatch order now m path meth))
         \<longrightarrow> limiter (snd (ShouldProfile pathMatch order now m path meth)) = Suc (limiter m)"
    using eff(3) by (simp add: sp)
  have c: "limiter (snd (StopProfiling rt now stamp unixNano saveErr m path meth task session))
        = limiter m - 1"
    using StopProfiling_effect by blast
  from le inv a b c show ?thesis by blast
qed

theorem ActiveProfiles_within_MaxConcurrent_witness:
  "run exactMatch (boot oneAtATime 0)
      [Update 0 [taskA], Request ''/a'' ''GET'' 1 [''/a''], Request ''/a'' ''GET'' 2 [''/a''],
       Start 0 None 3] \<noteq> None
   \<and> ActiveProfiles (stats (mgr (the (run exactMatch (boot oneAtATime 0)
      [Update 0 [taskA], Request ''/a'' ''GET'' 1 [''/a''], Request ''/a'' ''GET'' 2 [''/a''],
       Start 0 None 3])))) = 1
   \<and> FailedCount (stats (mgr (the (run exactMatch (boot oneAtATime 0)
      [Update 0 [taskA], Request ''/a'' ''GET'' 1 [''/a''], Request ''/a'' ''GET'' 2 [''/a''],
       Start 0 None 3])))) = 1
   \<and> limiter (mgr (the (run exactMatch (boot oneAtATime 0)
      [Update 0 [taskA], Request ''/a'' ''GET'' 1 [''/a''], Request ''/a'' ''GET'' 2 [''/a''],
       Start 0 None 3]))) = MaxConcurrent oneAtATime
   \<and> \<not> admit (fst (ShouldProfile exactMatch [''/a''] 4
        (mgr (the (run exactMatch (boot oneAtATime 0)
           [Update 0 [taskA], Request ''/a'' ''GET'' 1 [''/a''], Request ''/a'' ''GET'' 2 [''/a''],
            Start 0 None 3]))) ''/a'' ''GET''))"
proof -
  define evs where "evs =
      [Update 0 [taskA], Request ''/a'' ''GET'' 1 [''/a''], Request ''/a'' ''GET'' 2 [''/a''],
       Start 0 None 3]"
  define S where "S = the (run exactMatch (boot oneAtATime 0) evs)"
  have ev: "run exactMatch (boot oneAtATime 0) evs =
      Some \<lparr>mgr = \<lparr>tasks = [''/a'' \<mapsto> taskA],
                    stats = \<lparr>TotalRequests = 0, ProfiledCount = 1, FailedCount = 1,
                             ActiveProfiles = 1, LastUpdate = 0\<rparr>,
                    options = oneAtATime, limiter = 1, requestCount = Map.empty,
                    profilers = [''cpu'' \<mapsto> CPUProfiler, ''heap'' \<mapsto> HeapProfiler,
                                 ''goroutine'' \<mapsto> GoroutineProfiler],
                    saved = []\<rparr>,
            admitted = [],
            sessions = [(''/a'', ''GET'', taskA, CPUProfileSession 3 [] True)]\<rparr>"
    by (simp add: evs_def boot_def NewManager_def oneAtATime_def updateTasks_def Let_def
          ShouldProfile_def acquire_def exactMatch_def ShouldMatchMethod_def foldEqByte_def
          pruneCounts_def StartProfiling_def releaseLimiter_def countFailed_def removeAt_def
          wrap64_def taskA_def fun_eq_iff)
  then have r: "run exactMatch (boot oneAtATime 0) evs = Some S" by (simp add: S_def)
  have cap: "MaxConcurrent oneAtATime < 2 ^ 63" by (simp add: oneAtATime_def)
  note inst = ActiveProfiles_within_MaxConcurrent [OF cap r, where m = "mgr S"
      and order = "[''/a'']" and now = 4 and path = "''/a''" and meth = "''GET''"]
  have S: "S = \<lparr>mgr = \<lparr>tasks = [''/a'' \<mapsto> taskA],
                    stats = \<lparr>TotalRequests = 0, ProfiledCount = 1, FailedCount = 1,
                             ActiveProfiles = 1, LastUpdate = 0\<rparr>,
                    options = oneAtATime, limiter = 1, requestCount = Map.empty,
                    profilers = [''cpu'' \<mapsto> CPUProfiler, ''heap'' \<mapsto> HeapProfiler,
                                 ''goroutine'' \<mapsto> GoroutineProfiler],
                    saved = []\<rparr>,
            admitted = [],
            sessions = [(''/a'', ''GET'', taskA, CPUProfileSession 3 [] True)]\<rparr>"
    using ev by (simp add: S_def)
  have len: "length (sessions S) = 1" by (simp add: S)
  have f: "FailedCount (stats (mgr S)) = 1" by (simp add: S)
  have l: "limiter (mgr S) = MaxConcurrent oneAtATime" by (simp add: S oneAtATime_def)
  have o: "options (mgr S) = oneAtATime" by (simp add: S)
  have a: "ActiveProfiles (stats (mgr S)) = 1" using inst len by simp
  have n: "\<not> admit (fst (ShouldProfile exactMatch [''/a''] 4 (mgr S) ''/a'' ''GET''))"
    using inst l o by simp
  have "run exactMatch (boot oneAtATime 0) evs \<noteq> None" using r by simp
  with a f l n show ?thesis unfolding S_def evs_def by blast
qed


section \<open>Sampling over a sequence of calls\<close>













end
